theory Spec2Isabelle
  imports Complex_Main "HOL-Library.Stream"
begin

section \<open>Data model\<close>

text \<open>
  JavaScript numbers are modelled exactly: quantities that the program keeps integral
  (inventories, orders, shipments, stockouts) are \<^typ>\<open>int\<close>, costs and statistics are
  \<^typ>\<open>real\<close>. The rounding of the double-precision operations is not modelled, nor are
  \<open>NaN\<close> and the infinities. \<open>Math.round x\<close> is \<open>\<lfloor>x + 1/2\<rfloor>\<close>, which is \<^const>\<open>round\<close>.
  A failed property access on \<open>undefined\<close> is the error value \<open>TypeError\<close>.
\<close>

datatype error = TypeError

text \<open>
  The object literal built per role by the \<open>GameEngine\<close> constructor (game-engine.js, 14-27);
  the properties it sets are always present. \<open>stockoutHistory\<close> is a property that
  \<open>ScoreCalculator\<close> reads through optional chaining; \<open>None\<close> is the property being absent.
\<close>

record entity =
  id' :: string
  name :: string
  inventory :: int
  incomingOrders :: "int list"
  outgoingOrders :: "int list"
  incomingShipments :: "int list"
  outgoingShipments :: "int list"
  orderHistory :: "int list"
  inventoryHistory :: "int list"
  stockoutCosts :: real
  holdingCosts :: real
  unfulfilledDemand :: int
  stockoutHistory :: "int list option"

text \<open>\<open>Array.prototype.indexOf\<close>: the first index holding the value, \<open>-1\<close> when there is none.\<close>

fun indexOf :: "'a list \<Rightarrow> 'a \<Rightarrow> int" where
  "indexOf [] x = -1"
| "indexOf (y # ys) x =
     (if y = x then 0 else (let i = indexOf ys x in if i < 0 then -1 else i + 1))"

section \<open>ScoreCalculator (score-calculator.js)\<close>

subsection \<open>calculateResponsibilityScore\<close>

text \<open>
  The inner loop \<open>for (let i = roleIndex - 1; i >= 0; i--)\<close> (lines 36-47). The argument
  \<open>n\<close> counts the indices still to visit, so the iteration at \<open>Suc i\<close> handles index \<open>i\<close>.
  \<open>entities[downstreamId]\<close> being \<open>undefined\<close> makes \<open>downstreamEntity.stockoutHistory\<close> throw.
\<close>

fun downstream_loop ::
  "(string \<rightharpoonup> entity) \<Rightarrow> string list \<Rightarrow> int \<Rightarrow> int \<Rightarrow> nat \<Rightarrow> nat \<Rightarrow> int \<Rightarrow> error + int" where
  "downstream_loop entities roleOrder roleIndex stockout rnd 0 score = Inr score"
| "downstream_loop entities roleOrder roleIndex stockout rnd (Suc i) score =
     (case entities (roleOrder ! i) of
        None \<Rightarrow> Inl TypeError
      | Some downstreamEntity \<Rightarrow>
          (let affectedRound = rnd + (nat roleIndex - i) * 2;
               score' =
                 (case stockoutHistory downstreamEntity of
                    None \<Rightarrow> score
                  | Some h \<Rightarrow>
                      if affectedRound < length h \<and> h ! affectedRound > 0
                      then score + min stockout (h ! affectedRound)
                      else score)
           in downstream_loop entities roleOrder roleIndex stockout rnd i score'))"

text \<open>\<open>entity.stockoutHistory?.forEach((stockout, round) => ...)\<close> (lines 33-49).\<close>

fun stockout_loop ::
  "(string \<rightharpoonup> entity) \<Rightarrow> string list \<Rightarrow> int \<Rightarrow> int list \<Rightarrow> nat \<Rightarrow> int \<Rightarrow> error + int" where
  "stockout_loop entities roleOrder roleIndex [] rnd score = Inr score"
| "stockout_loop entities roleOrder roleIndex (stockout # rest) rnd score =
     (if stockout > 0
      then (case downstream_loop entities roleOrder roleIndex stockout rnd (nat roleIndex) score of
              Inl e \<Rightarrow> Inl e
            | Inr score' \<Rightarrow> stockout_loop entities roleOrder roleIndex rest (Suc rnd) score')
      else stockout_loop entities roleOrder roleIndex rest (Suc rnd) score)"

definition calculateResponsibilityScore ::
  "string \<Rightarrow> (string \<rightharpoonup> entity) \<Rightarrow> string list \<Rightarrow> error + int" where
  "calculateResponsibilityScore roleId entities roleOrder =
     (let roleIndex = indexOf roleOrder roleId
      in case entities roleId of
           None \<Rightarrow> Inr 0
         | Some entity \<Rightarrow>
             (case stockoutHistory entity of
                None \<Rightarrow> Inr 0
              | Some h \<Rightarrow> stockout_loop entities roleOrder roleIndex h 0 0))"

subsection \<open>Ratios with a guarded denominator\<close>

definition calculateServiceLevel :: "real \<Rightarrow> real \<Rightarrow> real" where
  "calculateServiceLevel fulfilled total' =
     (if total' = 0 then 100 else (fulfilled / total') * 100)"

definition calculateInventoryTurnover :: "real \<Rightarrow> real \<Rightarrow> real \<Rightarrow> real" where
  "calculateInventoryTurnover avgInventory totalDemand periods =
     (if avgInventory = 0 then 0 else totalDemand / avgInventory)"

definition calculateFillRate :: "real \<Rightarrow> real \<Rightarrow> real" where
  "calculateFillRate ordersFilled totalOrders =
     (if totalOrders = 0 then 100 else (ordersFilled / totalOrders) * 100)"

subsection \<open>calculateBullwhipMetrics\<close>

text \<open>
  The two object shapes stored in \<open>metrics\<close> (lines 161 and 171-176): a property that an
  object does not have is \<open>None\<close>. \<open>variance\<close> is present in both.
\<close>

record metrics =
  mean :: "real option"
  variance :: real
  stdDev :: "real option"
  coefficientOfVariation :: "real option"
  bullwhipRatio :: "real option"
  ratio :: "real option"

definition no_history_metrics :: metrics where
  "no_history_metrics =
     \<lparr>mean = None, variance = 0, stdDev = None, coefficientOfVariation = None,
      bullwhipRatio = None, ratio = Some 1\<rparr>"

text \<open>\<open>x || 1\<close> on a number: \<open>1\<close> when \<open>x\<close> is \<open>0\<close>.\<close>

definition or_one :: "real \<Rightarrow> real" where
  "or_one x = (if x = 0 then 1 else x)"

text \<open>One iteration of \<open>roleOrder.forEach((roleId, index) => ...)\<close> (lines 158-186).\<close>

definition bullwhip_step ::
  "(string \<rightharpoonup> entity) \<Rightarrow> string list \<Rightarrow> (string \<rightharpoonup> metrics) \<Rightarrow> nat \<Rightarrow> (string \<rightharpoonup> metrics)" where
  "bullwhip_step entities roleOrder ms index =
     (let roleId = roleOrder ! index
      in case entities roleId of
           None \<Rightarrow> ms(roleId \<mapsto> no_history_metrics)
         | Some entity \<Rightarrow>
             if orderHistory entity = [] then ms(roleId \<mapsto> no_history_metrics)
             else
               (let orders = map real_of_int (orderHistory entity);
                    mu = foldl (\<lambda>a b. a + b) 0 orders / real (length orders);
                    var = foldl (\<lambda>sum order. sum + (order - mu)\<^sup>2) 0 orders / real (length orders);
                    m = \<lparr>mean = Some mu, variance = var, stdDev = Some (sqrt var),
                         coefficientOfVariation = Some (if mu > 0 then sqrt var / mu else 0),
                         bullwhipRatio = None, ratio = None\<rparr>;
                    ms' = ms(roleId \<mapsto> m)
                in if index > 0
                   then (let downstreamRoleId = roleOrder ! (index - 1);
                             downstreamVariance =
                               (case ms' downstreamRoleId of
                                  None \<Rightarrow> 1
                                | Some d \<Rightarrow> or_one (variance d))
                         in ms'(roleId \<mapsto> m\<lparr>bullwhipRatio := Some (var / or_one downstreamVariance)\<rparr>))
                   else ms'(roleId \<mapsto> m\<lparr>bullwhipRatio := Some 1\<rparr>)))"

definition calculateBullwhipMetrics ::
  "(string \<rightharpoonup> entity) \<Rightarrow> string list \<Rightarrow> (string \<rightharpoonup> metrics)" where
  "calculateBullwhipMetrics entities roleOrder =
     fold (\<lambda>index ms. bullwhip_step entities roleOrder ms index) [0..<length roleOrder] Map.empty"

subsection \<open>The attribution rule as the specification words it\<close>

text \<open>
  The stockout of role \<open>d\<close> in round \<open>r\<close> (rounds counted from \<open>0\<close>, as the indices of
  \<open>stockoutHistory\<close>); \<open>0\<close> where nothing is recorded.
\<close>

definition stockout_at :: "(string \<rightharpoonup> entity) \<Rightarrow> string \<Rightarrow> nat \<Rightarrow> int" where
  "stockout_at entities d r =
     (case entities d of
        None \<Rightarrow> 0
      | Some e \<Rightarrow>
          (case stockoutHistory e of
             None \<Rightarrow> 0
           | Some h \<Rightarrow> if r < length h then h ! r else 0))"

definition rounds_recorded :: "(string \<rightharpoonup> entity) \<Rightarrow> string \<Rightarrow> nat" where
  "rounds_recorded entities d =
     (case entities d of
        None \<Rightarrow> 0
      | Some e \<Rightarrow> (case stockoutHistory e of None \<Rightarrow> 0 | Some h \<Rightarrow> length h))"

text \<open>
  For each round \<open>r\<close> where the role had a positive stockout, for every downstream role at
  chain distance \<open>k \<ge> 1\<close> (the role \<open>k\<close> places before it in the chain array), with
  \<open>affectedRound = r + 2k\<close>: add the smaller of the two stockouts when the downstream
  one is positive.
\<close>

definition lagged_attribution :: "string \<Rightarrow> (string \<rightharpoonup> entity) \<Rightarrow> string list \<Rightarrow> int" where
  "lagged_attribution role entities roleOrder =
     (let j = nat (indexOf roleOrder role)
      in \<Sum>r\<leftarrow>[0..<rounds_recorded entities role].
           if stockout_at entities role r > 0
           then (\<Sum>k\<leftarrow>[1..<Suc j].
                   if stockout_at entities (roleOrder ! (j - k)) (r + 2 * k) > 0
                   then min (stockout_at entities role r)
                            (stockout_at entities (roleOrder ! (j - k)) (r + 2 * k))
                   else 0)
           else 0)"

section \<open>PlayerLogic (player-logic.js)\<close>

text \<open>
  The \<open>state\<close> object that the strategies destructure. A property with a default in the
  destructuring pattern may be absent (\<open>None\<close>); \<open>inventory\<close> has no default.
\<close>

record currentState =
  inventory' :: real
  incomingOrder' :: "real option"
  orderHistory' :: "real list option"
  incomingShipments' :: "real list option"
  round' :: "real option"

text \<open>\<open>xs.reduce((a, b) => a + b, 0)\<close>.\<close>

definition reduce_sum :: "real list \<Rightarrow> real" where
  "reduce_sum xs = foldl (\<lambda>a b. a + b) 0 xs"

text \<open>\<open>xs.slice(-n)\<close> for \<open>n > 0\<close>: the last \<open>n\<close> elements, all of them when there are fewer.\<close>

definition slice_last :: "nat \<Rightarrow> 'a list \<Rightarrow> 'a list" where
  "slice_last n xs = drop (length xs - n) xs"

definition balancedStrategy :: "currentState \<Rightarrow> int" where
  "balancedStrategy state =
     (let inventory = inventory' state;
          incomingOrder = (case incomingOrder' state of None \<Rightarrow> 0 | Some v \<Rightarrow> v);
          incomingShipments = (case incomingShipments' state of None \<Rightarrow> [] | Some v \<Rightarrow> v);
          TARGET_BUFFER = 5;
          expectedInventory = inventory + reduce_sum incomingShipments;
          orderQuantity = max 0 (incomingOrder + TARGET_BUFFER - expectedInventory)
      in round orderQuantity)"

definition calculateTrend :: "real list \<Rightarrow> real" where
  "calculateTrend data =
     (if length data < 2 then 0
      else
        (let n = real (length data);
             sumX = (n * (n - 1)) / 2;
             sumY = reduce_sum data;
             sumXY = foldl (\<lambda>sum (x, y). sum + real x * y) 0 (zip [0..<length data] data);
             sumX2 = (n * (n - 1) * (2 * n - 1)) / 6;
             slope = (n * sumXY - sumX * sumY) / (n * sumX2 - sumX * sumX)
         in slope))"

definition calculateStdDev :: "real list \<Rightarrow> real" where
  "calculateStdDev data =
     (if length data = 0 then 0
      else
        (let mu = reduce_sum data / real (length data);
             squaredDiffs = map (\<lambda>v. (v - mu)\<^sup>2) data;
             var = reduce_sum squaredDiffs / real (length data)
         in sqrt var))"

definition predictiveStrategy :: "currentState \<Rightarrow> int" where
  "predictiveStrategy state =
     (let orderHistory = (case orderHistory' state of None \<Rightarrow> [] | Some v \<Rightarrow> v);
          inventory = inventory' state
      in if length orderHistory < 3 then balancedStrategy state
         else
           (let windowSize = min 5 (length orderHistory);
                recentOrders = slice_last windowSize orderHistory;
                ma = reduce_sum recentOrders / real windowSize;
                trend = calculateTrend recentOrders;
                forecast = ma + trend * 2;
                stdDev = calculateStdDev recentOrders;
                safetyStock = stdDev * 1.5;
                targetInventory = forecast + safetyStock;
                orderQuantity = max 0 (targetInventory - inventory)
            in round orderQuantity))"

subsection \<open>The forecast as the specification words it\<close>

text \<open>The last \<open>n\<close> orders of a history.\<close>

definition window :: "nat \<Rightarrow> real list \<Rightarrow> real list" where
  "window n xs = rev (take n (rev xs))"

definition movingAverage :: "real list \<Rightarrow> real" where
  "movingAverage w = sum_list w / real (length w)"

text \<open>
  Ordinary least squares of the order value against the index \<open>0..n-1\<close>: the covariance
  of index and value over the variance of the index.
\<close>

definition linearRegressionSlope :: "real list \<Rightarrow> real" where
  "linearRegressionSlope w =
     (let n = length w;
          xbar = (\<Sum>i<n. real i) / real n;
          ybar = (\<Sum>i<n. w ! i) / real n
      in (\<Sum>i<n. (real i - xbar) * (w ! i - ybar)) / (\<Sum>i<n. (real i - xbar)\<^sup>2))"

text \<open>Population standard deviation: the squared deviations are divided by \<open>n\<close>.\<close>

definition populationStdDev :: "real list \<Rightarrow> real" where
  "populationStdDev w =
     (let n = length w; ybar = (\<Sum>i<n. w ! i) / real n
      in sqrt ((\<Sum>i<n. (w ! i - ybar)\<^sup>2) / real n))"

section \<open>GameEngine (game-engine.js)\<close>

text \<open>
  \<open>Math.random()\<close> is ambient: the program has no seed and no generator parameter. The
  model makes the values that the successive calls return an input, a stream of reals in
  \<open>[0, 1)\<close>; a function that calls \<open>Math.random()\<close> reads the head and hands back the rest.
\<close>

type_synonym random_source = "real stream"

text \<open>An element of the \<open>roles\<close> array given to the constructor (its \<open>id\<close> and \<open>name\<close>).\<close>

record role =
  role_id :: string
  role_name :: string

text \<open>An element of \<open>demandTrend\<close>: \<open>{ min, max, volatility }\<close>.\<close>

record phase =
  min' :: int
  max' :: int
  volatility :: real

record engine =
  roles :: "role list"
  playerName :: string
  currentRound :: int
  playerRoleHistory :: "(int \<times> string) list"
  entities :: "string \<rightharpoonup> entity"
  demandTrend :: "phase list"
  currentDemandPhase :: int

text \<open>The value of \<open>processPlayerOrder\<close>.\<close>

record roundResult =
  newInventory :: int
  stockoutCost :: real
  holdingCost :: real
  fulfilled :: int
  unfulfilled :: int

definition generateDemandTrend :: "phase list" where
  "generateDemandTrend =
     map (\<lambda>i. \<lparr>min' = 4, max' = 6, volatility = 0.1\<rparr>) [0..<5] @
     map (\<lambda>i. \<lparr>min' = 5 + int i, max' = 7 + int i, volatility = 0.15\<rparr>) [0..<4] @
     map (\<lambda>i. \<lparr>min' = 8, max' = 12, volatility = 0.2\<rparr>) [0..<3] @
     map (\<lambda>i. \<lparr>min' = 6 - int i, max' = 8 - int i, volatility = 0.15\<rparr>) [0..<3] @
     map (\<lambda>i. \<lparr>min' = 4, max' = 6, volatility = 0.1\<rparr>) [0..<3] @
     map (\<lambda>i. \<lparr>min' = 7, max' = 10, volatility = 0.2\<rparr>) [0..<2]"

definition new_entity :: "role \<Rightarrow> entity" where
  "new_entity r =
     \<lparr>id' = role_id r, name = role_name r, inventory = 12, incomingOrders = [],
      outgoingOrders = [], incomingShipments = [], outgoingShipments = [], orderHistory = [],
      inventoryHistory = [12], stockoutCosts = 0, holdingCosts = 0, unfulfilledDemand = 0,
      stockoutHistory = None\<rparr>"

definition GameEngine :: "role list \<Rightarrow> string \<Rightarrow> engine" where
  "GameEngine rs pn =
     \<lparr>roles = rs, playerName = pn, currentRound = 0, playerRoleHistory = [],
      entities = fold (\<lambda>r es. es(role_id r \<mapsto> new_entity r)) rs Map.empty,
      demandTrend = generateDemandTrend, currentDemandPhase = 0\<rparr>"

text \<open>
  \<open>getCustomerDemand\<close> (lines 72-80). The early return calls \<open>Math.random()\<close> not at all,
  the other path twice. \<open>demandTrend[round - 1]\<close> outside the array is \<open>undefined\<close>, and
  reading \<open>phase.max\<close> then throws.
\<close>

definition getCustomerDemand :: "engine \<Rightarrow> int \<Rightarrow> random_source \<Rightarrow> error + (int \<times> random_source)" where
  "getCustomerDemand g rnd rand =
     (if rnd < 1 \<or> rnd > 20 then Inr (0, rand)
      else if nat (rnd - 1) < length (demandTrend g)
      then
        (let ph = demandTrend g ! nat (rnd - 1);
             base = \<lfloor>shd rand * real_of_int (max' ph - min' ph + 1)\<rfloor> + min' ph;
             noise = (shd (stl rand) - 0.5) * 2 * volatility ph * real_of_int base
         in Inr (max 0 (round (real_of_int base + noise)), stl (stl rand)))
      else Inl TypeError)"

definition getAIStrategy :: "string \<Rightarrow> int \<Rightarrow> string" where
  "getAIStrategy roleId rnd =
     (if rnd < 5 then ''conservative''
      else if rnd < 12
      then (case map_of [(''retailer'', ''reactive''), (''distributor'', ''balanced''),
                         (''wholesaler'', ''balanced''), (''manufacturer'', ''conservative''),
                         (''supplier'', ''aggressive'')] roleId of
              None \<Rightarrow> ''balanced''
            | Some strategy \<Rightarrow> strategy)
      else ''reactive'')"

text \<open>
  \<open>calculateAIOrder\<close> (lines 228-279); it calls \<open>Math.random()\<close> once. The \<open>switch\<close> is
  the chain of comparisons, its \<open>default\<close> the last branch.
\<close>

definition calculateAIOrder ::
  "entity \<Rightarrow> string \<Rightarrow> int \<Rightarrow> int \<Rightarrow> random_source \<Rightarrow> int \<times> random_source" where
  "calculateAIOrder entity strategy currentOrder rnd rand =
     (let recentOrders = slice_last 3 (orderHistory entity);
          avgRecentOrder =
            (if length recentOrders > 0
             then real_of_int (foldl (\<lambda>a b. a + b) 0 recentOrders) / real (length recentOrders)
             else real_of_int currentOrder);
          orderQuantity =
            (if strategy = ''conservative'' then currentOrder
             else if strategy = ''balanced''
             then round (real_of_int currentOrder + real_of_int currentOrder * 0.2)
             else if strategy = ''aggressive''
             then (let q = round (real_of_int currentOrder * 1.5)
                   in if inventory entity < 5 then q + 5 else q)
             else if strategy = ''reactive''
             then (let trend =
                         (if length recentOrders \<ge> 2
                          then recentOrders ! (length recentOrders - 1) - recentOrders ! 0
                          else 0)
                   in round (avgRecentOrder + real_of_int trend * 1.5))
             else currentOrder);
          variance' = \<lfloor>(shd rand - 0.5) * 2 * 2\<rfloor>;
          orderQuantity = max 0 (orderQuantity + variance');
          orderQuantity =
            (if inventory entity > 20 then \<lfloor>real_of_int orderQuantity * 0.7\<rfloor>
             else if inventory entity < 3 then \<lceil>real_of_int orderQuantity * 1.3\<rceil>
             else orderQuantity)
      in (round (real_of_int orderQuantity), stl rand))"

text \<open>\<open>xs.shift() || 0\<close>: the head and the rest; \<open>0\<close> from an empty queue.\<close>

definition shift_or_0 :: "int list \<Rightarrow> int \<times> int list" where
  "shift_or_0 xs = (case xs of [] \<Rightarrow> (0, []) | x # rest \<Rightarrow> (x, rest))"

text \<open>
  \<open>if (entity.incomingShipments.length >= 2) { inventory += incomingShipments.shift() }\<close>
  (lines 116-119 and 175-178).
\<close>

definition receiveShipment :: "entity \<Rightarrow> entity" where
  "receiveShipment e =
     (if length (incomingShipments e) \<ge> 2
      then e\<lparr>inventory := inventory e + hd (incomingShipments e),
             incomingShipments := tl (incomingShipments e)\<rparr>
      else e)"

definition aiRoleOrder :: "string list" where
  "aiRoleOrder = [''retailer'', ''distributor'', ''wholesaler'', ''manufacturer'', ''supplier'']"

text \<open>\<open>roleOrder[roleOrder.indexOf(roleId) - 1]\<close>, for a role after the first.\<close>

definition downstreamOf :: "string \<Rightarrow> string" where
  "downstreamOf roleId = aiRoleOrder ! nat (indexOf aiRoleOrder roleId - 1)"

text \<open>
  One iteration of \<open>roleOrder.forEach(roleId => ...)\<close> in \<open>processAIEntities\<close>
  (lines 148-196). Reading a property of \<open>this.entities[...]\<close> for a role that has no
  entity throws.
\<close>

definition aiIteration ::
  "int \<Rightarrow> string \<Rightarrow> string \<Rightarrow> engine \<times> random_source \<Rightarrow> error + (engine \<times> random_source)" where
  "aiIteration rnd playerRoleId roleId st =
     (let (g, rand) = st
      in if roleId = playerRoleId then Inr (g, rand)
         else
           (let strategy = getAIStrategy roleId rnd
            in case (if roleId = ''retailer''
                     then (case getCustomerDemand g rnd rand of
                             Inl e \<Rightarrow> Inl e
                           | Inr (d, rand') \<Rightarrow> Inr (d, g, rand'))
                     else (case entities g (downstreamOf roleId) of
                             None \<Rightarrow> Inl TypeError
                           | Some downstreamEntity \<Rightarrow>
                               (let (ord, rest) = shift_or_0 (outgoingOrders downstreamEntity)
                                in Inr (ord,
                                        g\<lparr>entities := (entities g)(downstreamOf roleId \<mapsto>
                                             downstreamEntity\<lparr>outgoingOrders := rest\<rparr>)\<rparr>,
                                        rand)))) of
                 Inl e \<Rightarrow> Inl e
               | Inr (incomingOrder, g1, rand1) \<Rightarrow>
                   (case entities g1 roleId of
                      None \<Rightarrow> Inl TypeError
                    | Some entity \<Rightarrow>
                        (let (orderToProcess, rest) = shift_or_0 (incomingOrders entity @ [incomingOrder]);
                             fulfilled = min orderToProcess (inventory entity);
                             unfulfilled = orderToProcess - fulfilled;
                             entity = entity\<lparr>incomingOrders := rest,
                                             inventory := inventory entity - fulfilled,
                                             unfulfilledDemand := unfulfilledDemand entity + unfulfilled\<rparr>;
                             entity = receiveShipment entity;
                             (orderQuantity, rand2) = calculateAIOrder entity strategy orderToProcess rnd rand1;
                             entity = entity\<lparr>outgoingOrders := outgoingOrders entity @ [orderQuantity],
                                             orderHistory := orderHistory entity @ [orderToProcess]\<rparr>;
                             entity = entity\<lparr>stockoutCosts := stockoutCosts entity + real_of_int unfulfilled * 1.0,
                                             holdingCosts := holdingCosts entity + real_of_int (inventory entity) * 0.5,
                                             inventoryHistory := inventoryHistory entity @ [inventory entity]\<rparr>;
                             g2 = g1\<lparr>entities := (entities g1)(roleId \<mapsto> entity)\<rparr>
                         in if roleId \<noteq> ''retailer''
                            then (case entities g2 (downstreamOf roleId) of
                                    None \<Rightarrow> Inl TypeError
                                  | Some downstreamEntity \<Rightarrow>
                                      Inr (g2\<lparr>entities := (entities g2)(downstreamOf roleId \<mapsto>
                                                 downstreamEntity\<lparr>incomingShipments :=
                                                   incomingShipments downstreamEntity @ [fulfilled]\<rparr>)\<rparr>,
                                           rand2))
                            else Inr (g2, rand2)))))"

fun forEachRole ::
  "int \<Rightarrow> string \<Rightarrow> string list \<Rightarrow> engine \<times> random_source \<Rightarrow> error + (engine \<times> random_source)" where
  "forEachRole rnd playerRoleId [] st = Inr st"
| "forEachRole rnd playerRoleId (roleId # rest) st =
     (case aiIteration rnd playerRoleId roleId st of
        Inl e \<Rightarrow> Inl e
      | Inr st' \<Rightarrow> forEachRole rnd playerRoleId rest st')"

text \<open>
  \<open>processAIEntities\<close> (lines 145-203): the loop, then the block headed
  "Handle supplier shipments to manufacturer", which reads the last element of the
  supplier's \<open>incomingOrders\<close> (\<open>undefined || 0\<close> when the queue is empty).
\<close>

definition processAIEntities ::
  "int \<Rightarrow> string \<Rightarrow> engine \<times> random_source \<Rightarrow> error + (engine \<times> random_source)" where
  "processAIEntities rnd playerRoleId st =
     (case forEachRole rnd playerRoleId aiRoleOrder st of
        Inl e \<Rightarrow> Inl e
      | Inr (g, rand) \<Rightarrow>
          (case entities g ''supplier'' of
             None \<Rightarrow> Inl TypeError
           | Some supplierEntity \<Rightarrow>
               (case entities g ''manufacturer'' of
                  None \<Rightarrow> Inl TypeError
                | Some manufacturerEntity \<Rightarrow>
                    (let supplierOrder =
                           (if incomingOrders supplierEntity = [] then 0
                            else incomingOrders supplierEntity ! (length (incomingOrders supplierEntity) - 1))
                     in Inr (g\<lparr>entities := (entities g)(''manufacturer'' \<mapsto>
                                  manufacturerEntity\<lparr>incomingShipments :=
                                    incomingShipments manufacturerEntity @ [supplierOrder]\<rparr>)\<rparr>,
                             rand)))))"

text \<open>
  \<open>processPlayerOrder\<close> (lines 102-143). The returned \<open>newInventory\<close> is read from the
  entity after \<open>processAIEntities\<close> has run.
\<close>

definition processPlayerOrder ::
  "string \<Rightarrow> int \<Rightarrow> int \<Rightarrow> engine \<times> random_source \<Rightarrow> error + (roundResult \<times> engine \<times> random_source)" where
  "processPlayerOrder roleId quantity rnd st =
     (let (g, rand) = st
      in case entities g roleId of
           None \<Rightarrow> Inl TypeError
         | Some entity \<Rightarrow>
             (let (incomingOrder, rest) = shift_or_0 (incomingOrders entity);
                  fulfilled' = min incomingOrder (inventory entity);
                  unfulfilled' = incomingOrder - fulfilled';
                  entity = entity\<lparr>incomingOrders := rest,
                                  inventory := inventory entity - fulfilled',
                                  unfulfilledDemand := unfulfilledDemand entity + unfulfilled'\<rparr>;
                  entity = receiveShipment entity;
                  entity = entity\<lparr>outgoingOrders := outgoingOrders entity @ [quantity],
                                  orderHistory := orderHistory entity @ [incomingOrder]\<rparr>;
                  stockoutCost' = real_of_int unfulfilled' * 1.0;
                  holdingCost' = real_of_int (inventory entity) * 0.5;
                  entity = entity\<lparr>stockoutCosts := stockoutCosts entity + stockoutCost',
                                  holdingCosts := holdingCosts entity + holdingCost',
                                  inventoryHistory := inventoryHistory entity @ [inventory entity]\<rparr>;
                  g1 = g\<lparr>entities := (entities g)(roleId \<mapsto> entity)\<rparr>
              in case processAIEntities rnd roleId (g1, rand) of
                   Inl e \<Rightarrow> Inl e
                 | Inr (g2, rand2) \<Rightarrow>
                     (case entities g2 roleId of
                        None \<Rightarrow> Inl TypeError
                      | Some entity \<Rightarrow>
                          Inr (\<lparr>newInventory = inventory entity, stockoutCost = stockoutCost',
                                holdingCost = holdingCost', fulfilled = fulfilled',
                                unfulfilled = unfulfilled'\<rparr>, g2, rand2))))"

text \<open>
  A session: the calls \<open>processPlayerOrder(roleId, quantity, round)\<close> that the host
  application makes on one engine, in order; it stops at the first exception.
\<close>

fun play ::
  "(string \<times> int \<times> int) list \<Rightarrow> engine \<times> random_source \<Rightarrow> error + (engine \<times> random_source)" where
  "play [] st = Inr st"
| "play ((roleId, quantity, rnd) # calls) st =
     (case processPlayerOrder roleId quantity rnd st of
        Inl e \<Rightarrow> Inl e
      | Inr (res, st') \<Rightarrow> play calls st')"

text \<open>
  The method \<open>GameEngine.calculateResponsibilityScore\<close> (lines 310-328), which
  \<open>getFinalResults\<close> calls: it reads the accumulated \<open>unfulfilledDemand\<close> of the role and
  of every role after it in its own \<open>roleOrder\<close>.
\<close>

definition responsibilityRoleOrder :: "string list" where
  "responsibilityRoleOrder = [''supplier'', ''manufacturer'', ''wholesaler'', ''distributor'', ''retailer'']"

fun engineDownstreamLoop :: "engine \<Rightarrow> entity \<Rightarrow> string list \<Rightarrow> int \<Rightarrow> error + int" where
  "engineDownstreamLoop g entity [] score = Inr score"
| "engineDownstreamLoop g entity (roleId # rest) score =
     (case entities g roleId of
        None \<Rightarrow> Inl TypeError
      | Some downstreamEntity \<Rightarrow>
          engineDownstreamLoop g entity rest
            (if unfulfilledDemand downstreamEntity > 0
             then score + min (unfulfilledDemand entity) (unfulfilledDemand downstreamEntity)
             else score))"

definition GameEngine_calculateResponsibilityScore :: "engine \<Rightarrow> string \<Rightarrow> error + int" where
  "GameEngine_calculateResponsibilityScore g roleId =
     (let roleIndex = indexOf responsibilityRoleOrder roleId
      in case entities g roleId of
           None \<Rightarrow> Inl TypeError
         | Some entity \<Rightarrow>
             if unfulfilledDemand entity > 0 \<and> roleIndex < int (length responsibilityRoleOrder) - 1
             then engineDownstreamLoop g entity (drop (nat (roleIndex + 1)) responsibilityRoleOrder) 0
             else Inr 0)"

section \<open>Auxiliary notions for the proofs\<close>

text \<open>
  What one iteration of the loop of \<open>processAIEntities\<close> does to the entity it processes
  (lines 164-188), given the incoming order: the entity afterwards, the amount fulfilled
  and the rest of the random source. \<open>aiIteration_alt\<close> below shows that \<open>aiIteration\<close>
  is this, placed between the reading of the incoming order and the dispatch downstream.
\<close>

definition aiProcess ::
  "entity \<Rightarrow> int \<Rightarrow> string \<Rightarrow> int \<Rightarrow> random_source \<Rightarrow> entity \<times> int \<times> random_source" where
  "aiProcess e incoming strategy rnd rand =
     (let ord = fst (shift_or_0 (incomingOrders e @ [incoming]));
          ful = min ord (inventory e);
          e1 = receiveShipment
                 (e\<lparr>incomingOrders := snd (shift_or_0 (incomingOrders e @ [incoming])),
                    inventory := inventory e - ful,
                    unfulfilledDemand := unfulfilledDemand e + (ord - ful)\<rparr>);
          oq = fst (calculateAIOrder e1 strategy ord rnd rand)
      in (e1\<lparr>outgoingOrders := outgoingOrders e1 @ [oq],
              orderHistory := orderHistory e1 @ [ord],
              stockoutCosts := stockoutCosts e1 + real_of_int (ord - ful) * 1.0,
              holdingCosts := holdingCosts e1 + real_of_int (inventory e1) * 0.5,
              inventoryHistory := inventoryHistory e1 @ [inventory e1]\<rparr>,
          ful, stl rand))"

text \<open>What \<open>processPlayerOrder\<close> does to the player's entity (lines 106-131).\<close>

definition playerProcess :: "entity \<Rightarrow> int \<Rightarrow> entity" where
  "playerProcess e quantity =
     (let ord = fst (shift_or_0 (incomingOrders e));
          ful = min ord (inventory e);
          e1 = receiveShipment
                 (e\<lparr>incomingOrders := snd (shift_or_0 (incomingOrders e)),
                    inventory := inventory e - ful,
                    unfulfilledDemand := unfulfilledDemand e + (ord - ful)\<rparr>)
      in e1\<lparr>outgoingOrders := outgoingOrders e1 @ [quantity],
             orderHistory := orderHistory e1 @ [ord],
             stockoutCosts := stockoutCosts e1 + real_of_int (ord - ful) * 1.0,
             holdingCosts := holdingCosts e1 + real_of_int (inventory e1) * 0.5,
             inventoryHistory := inventoryHistory e1 @ [inventory e1]\<rparr>)"

text \<open>The five roles of the loop have an entity, and the demand schedule its 20 phases.\<close>

definition chain_present :: "engine \<Rightarrow> bool" where
  "chain_present g \<longleftrightarrow> (\<forall>r \<in> set aiRoleOrder. entities g r \<noteq> None) \<and> length (demandTrend g) = 20"

text \<open>No negative stock, and no negative quantity waiting in a queue.\<close>

definition nonneg_entity :: "entity \<Rightarrow> bool" where
  "nonneg_entity e \<longleftrightarrow>
     0 \<le> inventory e \<and> (\<forall>x \<in> set (incomingOrders e). 0 \<le> x) \<and>
     (\<forall>x \<in> set (outgoingOrders e). 0 \<le> x) \<and> (\<forall>x \<in> set (incomingShipments e). 0 \<le> x)"

definition nonneg_state :: "engine \<Rightarrow> bool" where
  "nonneg_state g \<longleftrightarrow> (\<forall>r e. entities g r = Some e \<longrightarrow> nonneg_entity e)"
text \<open>The summand of the attribution for one downstream role at distance \<open>k\<close>.\<close>

definition downstream_term :: "(string \<rightharpoonup> entity) \<Rightarrow> string list \<Rightarrow> nat \<Rightarrow> int \<Rightarrow> nat \<Rightarrow> nat \<Rightarrow> int" where
  "downstream_term ents roleOrder j stockout r k =
     (if stockout_at ents (roleOrder ! (j - k)) (r + 2 * k) > 0
      then min stockout (stockout_at ents (roleOrder ! (j - k)) (r + 2 * k)) else 0)"
text \<open>
  How a round relates an entity before and after. \<open>processed\<close>: one order \<open>ord\<close> was
  appended to the order history, and the unfulfilled demand grew by what was left of it
  after fulfilling \<open>min ord inventory\<close> from the inventory held before. \<open>same_core\<close>: the
  entity was not processed, only its queues towards its neighbours may have changed.
\<close>

definition processed :: "entity \<Rightarrow> entity \<Rightarrow> bool" where
  "processed e e' \<longleftrightarrow>
     (\<exists>ord. orderHistory e' = orderHistory e @ [ord] \<and>
            unfulfilledDemand e' = unfulfilledDemand e + (ord - min ord (inventory e))) \<and>
     stockoutHistory e' = stockoutHistory e \<and> (incomingOrders e = [] \<longrightarrow> incomingOrders e' = [])"

definition same_core :: "entity \<Rightarrow> entity \<Rightarrow> bool" where
  "same_core e e' \<longleftrightarrow>
     inventory e' = inventory e \<and> orderHistory e' = orderHistory e \<and>
     unfulfilledDemand e' = unfulfilledDemand e \<and> stockoutHistory e' = stockoutHistory e \<and>
     incomingOrders e' = incomingOrders e"

definition round_rel :: "string set \<Rightarrow> engine \<Rightarrow> engine \<Rightarrow> bool" where
  "round_rel S g g' \<longleftrightarrow>
     (\<forall>r. (r \<in> S \<longrightarrow> (\<exists>e e'. entities g r = Some e \<and> entities g' r = Some e' \<and> processed e e')) \<and>
          (r \<notin> S \<longrightarrow> rel_option same_core (entities g r) (entities g' r)))"

text \<open>The queue \<open>incomingOrders\<close> is empty between iterations: what is pushed is shifted at once.\<close>

definition orders_idle :: "engine \<Rightarrow> bool" where
  "orders_idle g \<longleftrightarrow> (\<forall>r e. entities g r = Some e \<longrightarrow> incomingOrders e = [])"

text \<open>No entity records per-round stockouts.\<close>

definition no_stockout_history :: "engine \<Rightarrow> bool" where
  "no_stockout_history g \<longleftrightarrow> (\<forall>r e. entities g r = Some e \<longrightarrow> stockoutHistory e = None)"

text \<open>Concrete inputs: the five roles of the chain, and sources of random numbers.\<close>

definition fiveRoles :: "role list" where
  "fiveRoles = map (\<lambda>r. \<lparr>role_id = r, role_name = r\<rparr>) aiRoleOrder"

definition halves :: random_source where
  "halves = sconst (1 / 2)"

definition zeros :: random_source where
  "zeros = sconst 0"

text \<open>
  An engine whose supplier and manufacturer carry a per-round stockout record next to the
  accumulated \<open>unfulfilledDemand\<close>: the supplier was short by \<open>3\<close> in round \<open>0\<close>, the
  manufacturer by \<open>1\<close> in round \<open>0\<close> and by \<open>2\<close> in round \<open>2\<close>.
\<close>

definition stockoutDemo :: engine where
  "stockoutDemo =
     (GameEngine fiveRoles ''p'')
       \<lparr>entities := (entities (GameEngine fiveRoles ''p''))
          (''supplier'' \<mapsto>
             (new_entity \<lparr>role_id = ''supplier'', role_name = ''supplier''\<rparr>)
               \<lparr>unfulfilledDemand := 3, stockoutHistory := Some [3, 0, 0]\<rparr>,
           ''manufacturer'' \<mapsto>
             (new_entity \<lparr>role_id = ''manufacturer'', role_name = ''manufacturer''\<rparr>)
               \<lparr>unfulfilledDemand := 3, stockoutHistory := Some [1, 0, 2]\<rparr>)\<rparr>"

text \<open>
  Three entities: a retailer that was asked for \<open>5\<close> twice, a distributor asked for \<open>0\<close>
  and \<open>4\<close>, a wholesaler asked for \<open>0\<close> twice.
\<close>

definition varianceDemo :: "string \<rightharpoonup> entity" where
  "varianceDemo =
     [''retailer'' \<mapsto>
        (new_entity \<lparr>role_id = ''retailer'', role_name = ''retailer''\<rparr>)\<lparr>orderHistory := [5, 5]\<rparr>,
      ''distributor'' \<mapsto>
        (new_entity \<lparr>role_id = ''distributor'', role_name = ''distributor''\<rparr>)\<lparr>orderHistory := [0, 4]\<rparr>,
      ''wholesaler'' \<mapsto>
        (new_entity \<lparr>role_id = ''wholesaler'', role_name = ''wholesaler''\<rparr>)\<lparr>orderHistory := [0, 0]\<rparr>]"

text \<open>
  How many times one iteration of the loop, one round and one session call
  \<open>Math.random()\<close>: twice for the customer demand of a round in \<open>[1, 20]\<close>, once for the
  order of every role that the player does not hold.
\<close>

definition aiDraws :: "int \<Rightarrow> string \<Rightarrow> string \<Rightarrow> nat" where
  "aiDraws rnd p roleId =
     (if roleId = p then 0
      else if roleId = ''retailer'' then (if rnd < 1 \<or> rnd > 20 then 1 else 3)
      else 1)"

definition roundDraws :: "string \<Rightarrow> int \<Rightarrow> nat" where
  "roundDraws p rnd = sum_list (map (aiDraws rnd p) aiRoleOrder)"

fun sessionDraws :: "(string \<times> int \<times> int) list \<Rightarrow> nat" where
  "sessionDraws [] = 0"
| "sessionDraws ((roleId, quantity, rnd) # calls) = roundDraws roleId rnd + sessionDraws calls"

text \<open>
  A computation reads \<open>k\<close> random numbers: its result is the same on two sources that
  agree on their first \<open>k\<close> elements, and it hands back the source without them.
\<close>

definition reads :: "nat \<Rightarrow> (random_source \<Rightarrow> error + ('a \<times> random_source)) \<Rightarrow> bool" where
  "reads k f \<longleftrightarrow>
     (\<forall>r1 r2. stake k r1 = stake k r2 \<longrightarrow> map_sum id fst (f r1) = map_sum id fst (f r2)) \<and>
     (\<forall>r x s. f r = Inr (x, s) \<longrightarrow> s = sdrop k r)"

section \<open>The round processor: structure\<close>

lemma downstreamOf_simps:
  "downstreamOf ''distributor'' = ''retailer''"
  "downstreamOf ''wholesaler'' = ''distributor''"
  "downstreamOf ''manufacturer'' = ''wholesaler''"
  "downstreamOf ''supplier'' = ''manufacturer''"
  by (simp_all add: downstreamOf_def aiRoleOrder_def)

lemma downstreamOf_in:
  "roleId \<in> set aiRoleOrder \<Longrightarrow> roleId \<noteq> ''retailer'' \<Longrightarrow>
     downstreamOf roleId \<in> set aiRoleOrder \<and> downstreamOf roleId \<noteq> roleId"
  by (auto simp add: aiRoleOrder_def downstreamOf_simps)

lemma calculateAIOrder_snd: "snd (calculateAIOrder e strategy ord rnd rand) = stl rand"
  by (simp add: calculateAIOrder_def Let_def)

lemma aiIteration_alt:
  "aiIteration rnd p roleId (g, rand) =
     (if roleId = p then Inr (g, rand)
      else if roleId = ''retailer''
      then (case getCustomerDemand g rnd rand of
              Inl e \<Rightarrow> Inl e
            | Inr (d, rand1) \<Rightarrow>
                (case entities g roleId of
                   None \<Rightarrow> Inl TypeError
                 | Some e \<Rightarrow>
                     Inr (g\<lparr>entities := (entities g)(roleId \<mapsto>
                            fst (aiProcess e d (getAIStrategy roleId rnd) rnd rand1))\<rparr>,
                          stl rand1)))
      else (case entities g (downstreamOf roleId) of
              None \<Rightarrow> Inl TypeError
            | Some de \<Rightarrow>
                (let g1 = g\<lparr>entities := (entities g)(downstreamOf roleId \<mapsto>
                            de\<lparr>outgoingOrders := snd (shift_or_0 (outgoingOrders de))\<rparr>)\<rparr>
                 in case entities g1 roleId of
                      None \<Rightarrow> Inl TypeError
                    | Some e \<Rightarrow>
                        (let r = aiProcess e (fst (shift_or_0 (outgoingOrders de)))
                                   (getAIStrategy roleId rnd) rnd rand;
                             g2 = g1\<lparr>entities := (entities g1)(roleId \<mapsto> fst r)\<rparr>
                         in case entities g2 (downstreamOf roleId) of
                              None \<Rightarrow> Inl TypeError
                            | Some de' \<Rightarrow>
                                Inr (g2\<lparr>entities := (entities g2)(downstreamOf roleId \<mapsto>
                                       de'\<lparr>incomingShipments := incomingShipments de' @ [fst (snd r)]\<rparr>)\<rparr>,
                                     stl rand)))))"
proof (cases "roleId = p")
  case True
  then show ?thesis by (simp add: aiIteration_def)
next
  case np: False
  show ?thesis
  proof (cases "roleId = ''retailer''")
    case True
    show ?thesis
    proof (cases "getCustomerDemand g rnd rand")
      case (Inl a)
      with np True show ?thesis by (simp add: aiIteration_def)
    next
      case (Inr b)
      obtain d rand1 where b: "b = (d, rand1)" by (cases b)
      show ?thesis
      proof (cases "entities g ''retailer''")
        case None
        with np True Inr b show ?thesis by (simp add: aiIteration_def)
      next
        case (Some e)
        with np True Inr b show ?thesis
          by (simp add: aiIteration_def aiProcess_def Let_def case_prod_beta calculateAIOrder_snd)
      qed
    qed
  next
    case nr: False
    show ?thesis
    proof (cases "entities g (downstreamOf roleId)")
      case None
      with np nr show ?thesis by (simp add: aiIteration_def)
    next
      case de: (Some de)
      define g1 where "g1 = g\<lparr>entities := (entities g)(downstreamOf roleId \<mapsto>
                            de\<lparr>outgoingOrders := snd (shift_or_0 (outgoingOrders de))\<rparr>)\<rparr>"
      show ?thesis
      proof (cases "entities g1 roleId")
        case None
        with np nr de show ?thesis
          by (simp add: aiIteration_def Let_def g1_def case_prod_beta)
      next
        case (Some e)
        with np nr de show ?thesis
          by (simp add: aiIteration_def aiProcess_def Let_def g1_def case_prod_beta
              calculateAIOrder_snd)
      qed
    qed
  qed
qed


lemma aiIteration_InrE:
  assumes "aiIteration rnd p roleId (g, rand) = Inr (g', rand')" and "roleId \<in> set aiRoleOrder"
  obtains
    (skip) "roleId = p" "g' = g" "rand' = rand"
  | (retailer) d rand1 e where
      "roleId \<noteq> p" "roleId = ''retailer''"
      "getCustomerDemand g rnd rand = Inr (d, rand1)" "entities g roleId = Some e"
      "g' = g\<lparr>entities := (entities g)(roleId \<mapsto>
              fst (aiProcess e d (getAIStrategy roleId rnd) rnd rand1))\<rparr>"
      "rand' = stl rand1"
  | (other) de e where
      "roleId \<noteq> p" "roleId \<noteq> ''retailer''" "downstreamOf roleId \<noteq> roleId"
      "entities g (downstreamOf roleId) = Some de" "entities g roleId = Some e"
      "g' = g\<lparr>entities := (entities g)
              (roleId \<mapsto> fst (aiProcess e (fst (shift_or_0 (outgoingOrders de)))
                                 (getAIStrategy roleId rnd) rnd rand),
               downstreamOf roleId \<mapsto>
                 de\<lparr>outgoingOrders := snd (shift_or_0 (outgoingOrders de)),
                    incomingShipments := incomingShipments de @
                      [fst (snd (aiProcess e (fst (shift_or_0 (outgoingOrders de)))
                                   (getAIStrategy roleId rnd) rnd rand))]\<rparr>)\<rparr>"
      "rand' = stl rand"
proof (cases "roleId = p")
  case True
  with assms(1) have "g' = g" "rand' = rand" by (simp_all add: aiIteration_alt)
  with True show ?thesis by (rule skip)
next
  case np: False
  show ?thesis
  proof (cases "roleId = ''retailer''")
    case True
    from assms(1) np True obtain d rand1 e where
      "getCustomerDemand g rnd rand = Inr (d, rand1)" "entities g roleId = Some e"
      "g' = g\<lparr>entities := (entities g)(roleId \<mapsto>
              fst (aiProcess e d (getAIStrategy roleId rnd) rnd rand1))\<rparr>"
      "rand' = stl rand1"
      by (auto simp add: aiIteration_alt split: sum.splits option.splits)
    with np True show ?thesis by (rule retailer)
  next
    case nr: False
    have ne: "downstreamOf roleId \<noteq> roleId"
      using downstreamOf_in [OF assms(2) nr] by simp
    from assms(1) np nr ne obtain de e where
      de: "entities g (downstreamOf roleId) = Some de" and e: "entities g roleId = Some e"
      by (auto simp add: aiIteration_alt Let_def split: option.splits)
    from assms(1) np nr ne de e have
      "g' = g\<lparr>entities := (entities g)
              (roleId \<mapsto> fst (aiProcess e (fst (shift_or_0 (outgoingOrders de)))
                                 (getAIStrategy roleId rnd) rnd rand),
               downstreamOf roleId \<mapsto>
                 de\<lparr>outgoingOrders := snd (shift_or_0 (outgoingOrders de)),
                    incomingShipments := incomingShipments de @
                      [fst (snd (aiProcess e (fst (shift_or_0 (outgoingOrders de)))
                                   (getAIStrategy roleId rnd) rnd rand))]\<rparr>)\<rparr>"
      "rand' = stl rand"
      by (auto simp add: aiIteration_alt Let_def fun_upd_twist)
    with np nr ne de e show ?thesis by (rule other)
  qed
qed

lemma processAIEntities_InrE:
  assumes "processAIEntities rnd p (g, rand) = Inr (g', rand')"
  obtains g1 se me where
    "forEachRole rnd p aiRoleOrder (g, rand) = Inr (g1, rand')"
    "entities g1 ''supplier'' = Some se" "entities g1 ''manufacturer'' = Some me"
    "g' = g1\<lparr>entities := (entities g1)(''manufacturer'' \<mapsto>
            me\<lparr>incomingShipments := incomingShipments me @
              [if incomingOrders se = [] then 0
               else incomingOrders se ! (length (incomingOrders se) - 1)]\<rparr>)\<rparr>"
  using assms
  by (auto simp add: processAIEntities_def Let_def split: sum.splits option.splits)

lemma processPlayerOrder_alt:
  "processPlayerOrder roleId quantity rnd (g, rand) =
     (case entities g roleId of
        None \<Rightarrow> Inl TypeError
      | Some e \<Rightarrow>
          (case processAIEntities rnd roleId
                  (g\<lparr>entities := (entities g)(roleId \<mapsto> playerProcess e quantity)\<rparr>, rand) of
             Inl x \<Rightarrow> Inl x
           | Inr (g2, rand2) \<Rightarrow>
               (case entities g2 roleId of
                  None \<Rightarrow> Inl TypeError
                | Some e2 \<Rightarrow>
                    (let ord = fst (shift_or_0 (incomingOrders e)); ful = min ord (inventory e)
                     in Inr (\<lparr>newInventory = inventory e2,
                              stockoutCost = real_of_int (ord - ful) * 1.0,
                              holdingCost = real_of_int (inventory (playerProcess e quantity)) * 0.5,
                              fulfilled = ful, unfulfilled = ord - ful\<rparr>, g2, rand2)))))"
  by (simp add: processPlayerOrder_def playerProcess_def Let_def case_prod_beta
      split: option.splits sum.splits)


section \<open>ScoreCalculator: the responsibility score\<close>

lemma calculateResponsibilityScore_None: "ents roleId = Some e \<Longrightarrow> stockoutHistory e = None \<Longrightarrow>
  calculateResponsibilityScore roleId ents roleOrder = Inr 0"
  by (simp add: calculateResponsibilityScore_def)


lemma downstream_loop_sum:
  assumes "\<forall>i<n. roleOrder ! i \<in> dom ents" "n \<le> nat roleIndex"
  shows "downstream_loop ents roleOrder roleIndex stockout r n score =
         Inr (score + (\<Sum>i\<leftarrow>[0..<n]. downstream_term ents roleOrder (nat roleIndex) stockout r (nat roleIndex - i)))"
  using assms
proof (induction n arbitrary: score)
  case 0
  then show ?case by simp
next
  case (Suc n)
  from Suc.prems obtain d where d: "ents (roleOrder ! n) = Some d" by auto
  have sub: "nat roleIndex - (nat roleIndex - n) = n" using Suc.prems by simp
  have IH: "\<And>score. downstream_loop ents roleOrder roleIndex stockout r n score =
         Inr (score + (\<Sum>i\<leftarrow>[0..<n]. downstream_term ents roleOrder (nat roleIndex) stockout r (nat roleIndex - i)))"
    using Suc by simp
  show ?case
    by (simp add: d IH Let_def downstream_term_def stockout_at_def sub mult.commute split: option.splits)
qed

lemma sum_list_rev_index:
  "(\<Sum>i\<leftarrow>[0..<j]. f (j - i)) = (\<Sum>k\<leftarrow>[1..<Suc j]. (f k :: int))"
proof -
  have "(\<Sum>i\<leftarrow>[0..<j]. f (j - i)) = (\<Sum>i = 0..<j. f (j - i))"
    by (simp add: interv_sum_list_conv_sum_set_nat)
  also have "\<dots> = (\<Sum>k = Suc 0..<Suc j. f k)"
    by (rule sum.reindex_bij_witness [where i = "\<lambda>k. j - k" and j = "\<lambda>i. j - i"]) auto
  also have "\<dots> = (\<Sum>k\<leftarrow>[1..<Suc j]. f k)"
    by (simp add: interv_sum_list_conv_sum_set_nat)
  finally show ?thesis .
qed

lemma stockout_loop_sum:
  assumes "\<forall>i<nat roleIndex. roleOrder ! i \<in> dom ents"
  shows "stockout_loop ents roleOrder roleIndex h r score =
         Inr (score + (\<Sum>q\<leftarrow>[0..<length h].
                 if h ! q > 0
                 then (\<Sum>k\<leftarrow>[1..<Suc (nat roleIndex)]. downstream_term ents roleOrder (nat roleIndex) (h ! q) (r + q) k)
                 else 0))"
proof (induction h arbitrary: r score)
  case Nil
  then show ?case by simp
next
  case (Cons s h)
  have shift: "\<And>g. (\<Sum>q\<leftarrow>[0..<length (s # h)]. g q) = g 0 + (\<Sum>q\<leftarrow>[0..<length h]. (g (Suc q) :: int))"
    by (simp add: upt_rec [of 0] map_Suc_upt [symmetric] comp_def del: upt_Suc)
  show ?case
    unfolding shift
    by (simp add: Cons.IH downstream_loop_sum [OF assms order_refl] sum_list_rev_index cong: if_cong)
qed

text \<open>
  Claim C4 (amended). \<open>ScoreCalculator.calculateResponsibilityScore\<close>, given a chain
  array whose entries before the role all have an entity, returns the lagged attribution:
  the sum, over the rounds \<open>r\<close> with a positive stockout of the role and over the
  downstream roles at distance \<open>k \<ge> 1\<close>, of the smaller of the role's stockout and the
  downstream stockout of round \<open>r + 2k\<close>, where that one is positive.
\<close>

theorem calculateResponsibilityScore_lagged:
  assumes "\<forall>i<nat (indexOf roleOrder roleId). roleOrder ! i \<in> dom ents"
  shows "calculateResponsibilityScore roleId ents roleOrder = Inr (lagged_attribution roleId ents roleOrder)"
proof (cases "ents roleId")
  case None
  then show ?thesis
    by (simp add: calculateResponsibilityScore_def lagged_attribution_def rounds_recorded_def)
next
  case (Some e)
  show ?thesis
  proof (cases "stockoutHistory e")
    case None
    with Some show ?thesis
      by (simp add: calculateResponsibilityScore_def lagged_attribution_def rounds_recorded_def)
  next
    case (Some h)
    have at: "\<And>r. r \<in> set [0..<length h] \<Longrightarrow> stockout_at ents roleId r = h ! r"
      by (simp add: stockout_at_def \<open>ents roleId = Some e\<close> Some)
    have "lagged_attribution roleId ents roleOrder =
        (\<Sum>q\<leftarrow>[0..<length h].
                 if h ! q > 0
                 then (\<Sum>k\<leftarrow>[1..<Suc (nat (indexOf roleOrder roleId))]. downstream_term ents roleOrder (nat (indexOf roleOrder roleId)) (h ! q) (0 + q) k)
                 else 0)"
      unfolding lagged_attribution_def Let_def
      using \<open>ents roleId = Some e\<close> Some
      by (auto simp add: rounds_recorded_def downstream_term_def at intro!: arg_cong [where f = sum_list] map_cong)
    then show ?thesis
      using \<open>ents roleId = Some e\<close> Some
      by (simp add: calculateResponsibilityScore_def stockout_loop_sum [OF assms])
  qed
qed

section \<open>PlayerLogic: the predictive strategy\<close>

lemma reduce_sum_sum_list: "reduce_sum xs = sum_list xs"
proof -
  have "\<And>a. foldl (\<lambda>a b. a + b) a xs = a + sum_list xs"
    by (induction xs) (simp_all add: add.assoc)
  then show ?thesis by (simp add: reduce_sum_def)
qed

lemma sum_list_nth_sum: "sum_list (w :: real list) = (\<Sum>i<length w. w ! i)"
  by (simp add: sum_list_sum_nth atLeast0LessThan)

lemma slice_last_window: "slice_last n xs = window n xs"
  by (simp add: slice_last_def window_def rev_take)

lemma sumXY_eq: "foldl (\<lambda>sum (x, y). sum + real x * y) 0 (zip [0..<length d] d) = (\<Sum>i<length d. real i * d ! i)"
proof (induction d rule: rev_induct)
  case Nil
  then show ?case by simp
next
  case (snoc y d)
  have "(\<Sum>i<length d. real i * (d @ [y]) ! i) = (\<Sum>i<length d. real i * d ! i)"
    by (rule sum.cong) (simp_all add: nth_append)
  then show ?case
    using snoc.IH by simp
qed

lemma sum_idx: "(\<Sum>i<n. real i) = real n * (real n - 1) / 2"
  by (induction n) (simp_all add: field_simps)

lemma sum_idx2: "(\<Sum>i<n. (real i)\<^sup>2) = real n * (real n - 1) * (2 * real n - 1) / 6"
  by (induction n) (simp_all add: field_simps power2_eq_square)

lemma centered_cov:
  fixes f g :: "nat \<Rightarrow> real"
  assumes "n > 0"
  shows "(\<Sum>i<n. (f i - (\<Sum>i<n. f i) / real n) * (g i - (\<Sum>i<n. g i) / real n))
       = (\<Sum>i<n. f i * g i) - (\<Sum>i<n. f i) * (\<Sum>i<n. g i) / real n"
proof -
  define a where "a = (\<Sum>i<n. f i) / real n"
  define b where "b = (\<Sum>i<n. g i) / real n"
  have "(\<Sum>i<n. (f i - a) * (g i - b)) = (\<Sum>i<n. f i * g i - a * g i - b * f i + a * b)"
    by (rule sum.cong) (simp_all add: algebra_simps)
  also have "\<dots> = (\<Sum>i<n. f i * g i) - a * (\<Sum>i<n. g i) - b * (\<Sum>i<n. f i) + real n * (a * b)"
    by (simp add: sum.distrib sum_subtractf sum_distrib_left)
  also have "\<dots> = (\<Sum>i<n. f i * g i) - (\<Sum>i<n. f i) * (\<Sum>i<n. g i) / real n"
    using assms by (simp add: a_def b_def field_simps)
  finally show ?thesis by (simp add: a_def b_def)
qed

lemma calculateTrend_ols:
  assumes "2 \<le> length w"
  shows "calculateTrend w = linearRegressionSlope w"
proof -
  define n where "n = length w"
  have n: "n > 0" "real n \<noteq> 0" using assms by (auto simp add: n_def)
  define Sx where "Sx = (\<Sum>i<n. real i)"
  define Sy where "Sy = (\<Sum>i<n. w ! i)"
  define Sxy where "Sxy = (\<Sum>i<n. real i * w ! i)"
  define Sxx where "Sxx = (\<Sum>i<n. (real i)\<^sup>2)"
  have num: "(\<Sum>i<n. (real i - Sx / real n) * (w ! i - Sy / real n)) = Sxy - Sx * Sy / real n"
    unfolding Sx_def Sy_def Sxy_def using centered_cov [OF n(1), of real "\<lambda>i. w ! i"] by simp
  have den: "(\<Sum>i<n. (real i - Sx / real n)\<^sup>2) = Sxx - Sx * Sx / real n"
    unfolding Sx_def Sxx_def using centered_cov [OF n(1), of real real] by (simp add: power2_eq_square)
  have spec: "linearRegressionSlope w = (Sxy - Sx * Sy / real n) / (Sxx - Sx * Sx / real n)"
    by (simp add: linearRegressionSlope_def Let_def n_def [symmetric] Sx_def [symmetric] Sy_def [symmetric] num den)
  have code: "calculateTrend w = (real n * Sxy - Sx * Sy) / (real n * Sxx - Sx * Sx)"
    using assms
    by (simp add: calculateTrend_def Let_def reduce_sum_sum_list sum_list_nth_sum sumXY_eq
        Sx_def Sy_def Sxy_def Sxx_def sum_idx sum_idx2 n_def)
  have "(Sxy - Sx * Sy / real n) / (Sxx - Sx * Sx / real n)
      = (real n * (Sxy - Sx * Sy / real n)) / (real n * (Sxx - Sx * Sx / real n))"
    using n by simp
  also have "\<dots> = (real n * Sxy - Sx * Sy) / (real n * Sxx - Sx * Sx)"
    using n by (simp add: algebra_simps)
  finally show ?thesis by (simp add: spec code)
qed

lemma calculateStdDev_population:
  assumes "w \<noteq> []"
  shows "calculateStdDev w = populationStdDev w"
  using assms
  by (simp add: calculateStdDev_def populationStdDev_def Let_def reduce_sum_sum_list sum_list_nth_sum
      sum_list_sum_nth atLeast0LessThan)

lemma balanced_nonneg: "0 \<le> balancedStrategy st"
  by (simp add: balancedStrategy_def Let_def round_def)

text \<open>
  Claim C8. With fewer than three orders in the history the predictive strategy is the
  balanced one; otherwise, on the window of the last \<open>min 5 len\<close> orders, it is the
  rounding of \<open>max 0 (moving average + 2 * least-squares slope + 1.5 * population standard
  deviation - inventory)\<close>; and the result is never negative.
\<close>

theorem predictiveStrategy_forecast:
  "(length (case orderHistory' st of None \<Rightarrow> [] | Some v \<Rightarrow> v) < 3 \<longrightarrow> predictiveStrategy st = balancedStrategy st) \<and>
   (3 \<le> length (case orderHistory' st of None \<Rightarrow> [] | Some v \<Rightarrow> v) \<longrightarrow>
      predictiveStrategy st =
        (let h = (case orderHistory' st of None \<Rightarrow> [] | Some v \<Rightarrow> v); w = window (min 5 (length h)) h
         in round (max 0 (movingAverage w + 2 * linearRegressionSlope w + 1.5 * populationStdDev w - inventory' st)))) \<and>
   0 \<le> predictiveStrategy st"
proof -
  define h where "h = (case orderHistory' st of None \<Rightarrow> [] | Some v \<Rightarrow> v)"
  define w where "w = window (min 5 (length h)) h"
  have len: "3 \<le> length h \<Longrightarrow> length w = min 5 (length h)"
    by (simp add: w_def window_def)
  have main: "predictiveStrategy st =
      round (max 0 (movingAverage w + 2 * linearRegressionSlope w + 1.5 * populationStdDev w - inventory' st))"
    if "3 \<le> length h"
  proof -
    have l: "length w = min 5 (length h)" using len that .
    have "2 \<le> length w" "w \<noteq> []" using l that by auto
    then show ?thesis
      using that
      by (simp add: predictiveStrategy_def Let_def h_def [symmetric] slice_last_window w_def [symmetric]
          calculateTrend_ols calculateStdDev_population movingAverage_def reduce_sum_sum_list l mult.commute)
  qed
  have nonneg: "0 \<le> predictiveStrategy st"
  proof (cases "3 \<le> length h")
    case True
    then show ?thesis by (simp add: main round_def)
  next
    case False
    then show ?thesis
      by (simp add: predictiveStrategy_def Let_def h_def [symmetric] balanced_nonneg)
  qed
  show ?thesis
    using main nonneg
    by (auto simp add: h_def [symmetric] w_def [symmetric] Let_def predictiveStrategy_def)
qed

theorem predictiveStrategy_forecast_witness:
  "predictiveStrategy \<lparr>inventory' = 2, incomingOrder' = Some 5, orderHistory' = Some [5, 5, 5],
                       incomingShipments' = None, round' = None\<rparr> = 3 \<and>
   predictiveStrategy \<lparr>inventory' = 2, incomingOrder' = Some 5, orderHistory' = Some [4, 6],
                       incomingShipments' = Some [1], round' = None\<rparr> = 7"
  using predictiveStrategy_forecast
          [of "\<lparr>inventory' = 2, incomingOrder' = Some 5, orderHistory' = Some [5, 5, 5],
                       incomingShipments' = None, round' = None\<rparr>"]
        predictiveStrategy_forecast
          [of "\<lparr>inventory' = 2, incomingOrder' = Some 5, orderHistory' = Some [4, 6],
                       incomingShipments' = Some [1], round' = None\<rparr>"]
  by (simp add: window_def movingAverage_def linearRegressionSlope_def populationStdDev_def
      balancedStrategy_def reduce_sum_def eval_nat_numeral Let_def)


section \<open>The round processor: what a round does to each entity\<close>

lemma forEachRole_invariant:
  assumes "forEachRole rnd p rs st = Inr st'" and "P st"
    and "\<And>roleId st st'. roleId \<in> set rs \<Longrightarrow> P st \<Longrightarrow> aiIteration rnd p roleId st = Inr st' \<Longrightarrow> P st'"
  shows "P st'"
  using assms
proof (induction rs arbitrary: st)
  case Nil
  then show ?case by simp
next
  case (Cons r rs)
  from Cons.prems(1) obtain st1 where
    1: "aiIteration rnd p r st = Inr st1" and 2: "forEachRole rnd p rs st1 = Inr st'"
    by (auto split: sum.splits)
  have st1: "P st1" using Cons.prems(3) [of r st st1] Cons.prems(2) 1 by simp
  have "\<And>roleId st st'. roleId \<in> set rs \<Longrightarrow> P st \<Longrightarrow> aiIteration rnd p roleId st = Inr st' \<Longrightarrow> P st'"
    using Cons.prems(3) by (meson list.set_intros(2))
  from Cons.IH [OF 2 st1 this] show ?case .
qed

lemma receiveShipment_fields [simp]:
  "orderHistory (receiveShipment e) = orderHistory e"
  "unfulfilledDemand (receiveShipment e) = unfulfilledDemand e"
  "stockoutHistory (receiveShipment e) = stockoutHistory e"
  "incomingOrders (receiveShipment e) = incomingOrders e"
  "outgoingOrders (receiveShipment e) = outgoingOrders e"
  "inventoryHistory (receiveShipment e) = inventoryHistory e"
  by (simp_all add: receiveShipment_def)

lemma aiProcess_processed: "processed e (fst (aiProcess e incoming strategy rnd rand))"
  by (simp add: processed_def aiProcess_def Let_def shift_or_0_def split: list.splits)

lemma playerProcess_processed: "processed e (playerProcess e quantity)"
  by (simp add: processed_def playerProcess_def Let_def shift_or_0_def)

lemma same_core_refl [simp]: "same_core e e"
  by (simp add: same_core_def)

lemma rel_option_same_core_refl [simp]: "rel_option same_core x x"
  by (cases x) simp_all

lemma same_core_trans: "same_core a b \<Longrightarrow> same_core b c \<Longrightarrow> same_core a c"
  by (simp add: same_core_def)

lemma same_core_processed: "same_core a b \<Longrightarrow> processed b c \<Longrightarrow> processed a c"
  by (auto simp add: same_core_def processed_def)

lemma processed_same_core: "processed a b \<Longrightarrow> same_core b c \<Longrightarrow> processed a c"
  by (auto simp add: same_core_def processed_def)

lemma round_rel_empty [simp]: "round_rel {} g g"
  by (simp add: round_rel_def)

lemma round_rel_compose:
  assumes "round_rel S g g1" "round_rel T g1 g2" "S \<inter> T = {}"
  shows "round_rel (S \<union> T) g g2"
  unfolding round_rel_def
proof (intro allI conjI impI)
  fix r
  assume "r \<in> S \<union> T"
  then consider "r \<in> S" "r \<notin> T" | "r \<in> T" "r \<notin> S" using assms(3) by auto
  then show "\<exists>e e'. entities g r = Some e \<and> entities g2 r = Some e' \<and> processed e e'"
  proof cases
    case 1
    then obtain e e1 where "entities g r = Some e" "entities g1 r = Some e1" "processed e e1"
      using assms(1) unfolding round_rel_def by blast
    moreover have "rel_option same_core (entities g1 r) (entities g2 r)"
      using assms(2) 1 unfolding round_rel_def by blast
    ultimately show ?thesis
      by (cases "entities g2 r") (auto intro: processed_same_core)
  next
    case 2
    then obtain e1 e2 where "entities g1 r = Some e1" "entities g2 r = Some e2" "processed e1 e2"
      using assms(2) unfolding round_rel_def by blast
    moreover have "rel_option same_core (entities g r) (entities g1 r)"
      using assms(1) 2 unfolding round_rel_def by blast
    ultimately show ?thesis
      by (cases "entities g r") (auto intro: same_core_processed)
  qed
next
  fix r
  assume "r \<notin> S \<union> T"
  then have "rel_option same_core (entities g r) (entities g1 r)"
    "rel_option same_core (entities g1 r) (entities g2 r)"
    using assms(1,2) unfolding round_rel_def by auto
  then show "rel_option same_core (entities g r) (entities g2 r)"
    by (cases "entities g r"; cases "entities g1 r"; cases "entities g2 r")
       (auto intro: same_core_trans)
qed



lemma aiIteration_round_rel:
  assumes "aiIteration rnd p roleId (g, rand) = Inr (g', rand')" and "roleId \<in> set aiRoleOrder"
  shows "round_rel ({roleId} - {p}) g g'"
  using assms
proof (cases rule: aiIteration_InrE)
  case skip
  then show ?thesis by simp
next
  case (retailer d rand1 e)
  then show ?thesis
    by (auto simp add: round_rel_def aiProcess_processed)
next
  case (other de e)
  have "same_core de (de\<lparr>outgoingOrders := snd (shift_or_0 (outgoingOrders de)),
                    incomingShipments := incomingShipments de @
                      [fst (snd (aiProcess e (fst (shift_or_0 (outgoingOrders de)))
                                   (getAIStrategy roleId rnd) rnd rand))]\<rparr>)"
    by (simp add: same_core_def)
  with other show ?thesis
    by (auto simp add: round_rel_def aiProcess_processed)
qed

lemma forEachRole_round_rel:
  assumes "forEachRole rnd p rs (g, rand) = Inr (g', rand')" "distinct rs" "set rs \<subseteq> set aiRoleOrder"
  shows "round_rel (set rs - {p}) g g'"
  using assms
proof (induction rs arbitrary: g rand)
  case Nil
  then show ?case by simp
next
  case (Cons r rs)
  from Cons.prems(1) obtain g1 rand1 where
    1: "aiIteration rnd p r (g, rand) = Inr (g1, rand1)" and
    2: "forEachRole rnd p rs (g1, rand1) = Inr (g', rand')"
    by (auto split: sum.splits)
  have a: "round_rel ({r} - {p}) g g1"
    using aiIteration_round_rel [OF 1] Cons.prems(3) by simp
  have b: "round_rel (set rs - {p}) g1 g'"
    using Cons.IH [OF 2] Cons.prems(2,3) by simp
  have "round_rel (({r} - {p}) \<union> (set rs - {p})) g g'"
    using a b by (rule round_rel_compose) (use Cons.prems(2) in auto)
  moreover have "({r} - {p}) \<union> (set rs - {p}) = set (r # rs) - {p}" by auto
  ultimately show ?case by simp
qed

lemma processAIEntities_round_rel:
  assumes "processAIEntities rnd p (g, rand) = Inr (g', rand')"
  shows "round_rel (set aiRoleOrder - {p}) g g'"
  using assms
proof (cases rule: processAIEntities_InrE)
  case (1 g1 se me)
  have a: "round_rel (set aiRoleOrder - {p}) g g1"
    using forEachRole_round_rel [OF 1(1)] by (simp add: aiRoleOrder_def)
  have b: "round_rel {} g1 g'"
    using 1(3,4) by (auto simp add: round_rel_def same_core_def)
  show ?thesis
    using round_rel_compose [OF a b] by simp
qed

lemma processPlayerOrder_round_rel:
  assumes "processPlayerOrder roleId quantity rnd (g, rand) = Inr (res, g', rand')"
  shows "round_rel (insert roleId (set aiRoleOrder)) g g'"
proof -
  from assms obtain e where e: "entities g roleId = Some e"
    by (auto simp add: processPlayerOrder_alt split: option.splits)
  define g1 where "g1 = g\<lparr>entities := (entities g)(roleId \<mapsto> playerProcess e quantity)\<rparr>"
  from assms e have ai: "processAIEntities rnd roleId (g1, rand) = Inr (g', rand')"
    by (auto simp add: processPlayerOrder_alt g1_def Let_def split: option.splits sum.splits)
  have a: "round_rel {roleId} g g1"
    using e by (auto simp add: round_rel_def g1_def playerProcess_processed)
  have b: "round_rel (set aiRoleOrder - {roleId}) g1 g'"
    using processAIEntities_round_rel [OF ai] .
  have "round_rel ({roleId} \<union> (set aiRoleOrder - {roleId})) g g'"
    using a b by (rule round_rel_compose) auto
  moreover have "{roleId} \<union> (set aiRoleOrder - {roleId}) = insert roleId (set aiRoleOrder)" by auto
  ultimately show ?thesis by simp
qed

lemma processPlayerOrder_result:
  assumes "processPlayerOrder roleId quantity rnd (g, rand) = Inr (res, g', rand')"
  shows "\<exists>e e'. entities g roleId = Some e \<and> entities g' roleId = Some e' \<and>
           orderHistory e' = orderHistory e @ [fulfilled res + unfulfilled res] \<and>
           fulfilled res = min (fulfilled res + unfulfilled res) (inventory e) \<and>
           unfulfilledDemand e' = unfulfilledDemand e + unfulfilled res \<and>
           newInventory res = inventory e' \<and>
           fulfilled res + unfulfilled res = fst (shift_or_0 (incomingOrders e))"
proof -
  from assms obtain e where e: "entities g roleId = Some e"
    by (auto simp add: processPlayerOrder_alt split: option.splits)
  define g1 where "g1 = g\<lparr>entities := (entities g)(roleId \<mapsto> playerProcess e quantity)\<rparr>"
  from assms e obtain e' where ai: "processAIEntities rnd roleId (g1, rand) = Inr (g', rand')"
    and e': "entities g' roleId = Some e'"
    and res: "res = \<lparr>newInventory = inventory e',
                     stockoutCost = real_of_int (fst (shift_or_0 (incomingOrders e)) -
                        min (fst (shift_or_0 (incomingOrders e))) (inventory e)) * 1.0,
                     holdingCost = real_of_int (inventory (playerProcess e quantity)) * 0.5,
                     fulfilled = min (fst (shift_or_0 (incomingOrders e))) (inventory e),
                     unfulfilled = fst (shift_or_0 (incomingOrders e)) -
                        min (fst (shift_or_0 (incomingOrders e))) (inventory e)\<rparr>"
    by (auto simp add: processPlayerOrder_alt g1_def Let_def split: option.splits sum.splits)
  have "rel_option same_core (entities g1 roleId) (entities g' roleId)"
    using processAIEntities_round_rel [OF ai] by (simp add: round_rel_def)
  then have sc: "same_core (playerProcess e quantity) e'"
    using e' by (simp add: g1_def)
  show ?thesis
    using e e' sc
    by (simp add: res same_core_def playerProcess_def Let_def)
qed


section \<open>The round processor: quantities stay non-negative\<close>

lemma shift_or_0_nonneg:
  assumes "\<forall>x \<in> set xs. 0 \<le> x"
  shows "0 \<le> fst (shift_or_0 xs)" and "\<forall>x \<in> set (snd (shift_or_0 xs)). 0 \<le> x"
  using assms by (auto simp add: shift_or_0_def split: list.splits)

lemma receiveShipment_nonneg: "nonneg_entity e \<Longrightarrow> nonneg_entity (receiveShipment e)"
proof -
  assume n: "nonneg_entity e"
  show ?thesis
  proof (cases "incomingShipments e")
    case Nil
    with n show ?thesis by (simp add: receiveShipment_def)
  next
    case (Cons x xs)
    with n show ?thesis by (auto simp add: receiveShipment_def nonneg_entity_def)
  qed
qed

lemma adjust_nonneg:
  "0 \<le> round (real_of_int
      (if i > 20 then \<lfloor>real_of_int (max 0 x) * 0.7\<rfloor>
       else if i < (3::int) then \<lceil>real_of_int (max 0 x) * 1.3\<rceil>
       else max 0 x))"
proof -
  have "0 \<le> real_of_int (max 0 x) * 1.3" by simp
  then have "- 1 < real_of_int (max 0 x) * 1.3" by linarith
  then show ?thesis by (simp add: zero_le_ceiling)
qed

lemma calculateAIOrder_nonneg: "0 \<le> fst (calculateAIOrder e strategy ord rnd rand)"
  unfolding calculateAIOrder_def Let_def fst_conv by (rule adjust_nonneg)

lemma getCustomerDemand_nonneg: "getCustomerDemand g rnd rand = Inr (d, rand') \<Longrightarrow> 0 \<le> d"
  by (auto simp add: getCustomerDemand_def Let_def split: if_splits)

lemma aiProcess_nonneg:
  assumes "nonneg_entity e" "0 \<le> incoming"
  shows "nonneg_entity (fst (aiProcess e incoming strategy rnd rand))"
    and "0 \<le> fst (snd (aiProcess e incoming strategy rnd rand))"
proof -
  define ord where "ord = fst (shift_or_0 (incomingOrders e @ [incoming]))"
  define e0 where "e0 = e\<lparr>incomingOrders := snd (shift_or_0 (incomingOrders e @ [incoming])),
                    inventory := inventory e - min ord (inventory e),
                    unfulfilledDemand := unfulfilledDemand e + (ord - min ord (inventory e))\<rparr>"
  have q: "\<forall>x \<in> set (incomingOrders e @ [incoming]). 0 \<le> x"
    using assms by (auto simp add: nonneg_entity_def)
  have ord: "0 \<le> ord" unfolding ord_def using shift_or_0_nonneg(1) [OF q] .
  have "nonneg_entity e0"
    using assms(1) shift_or_0_nonneg(2) [OF q] by (auto simp add: nonneg_entity_def e0_def)
  then have e1: "nonneg_entity (receiveShipment e0)" by (rule receiveShipment_nonneg)
  have "fst (aiProcess e incoming strategy rnd rand) =
          (receiveShipment e0)\<lparr>outgoingOrders := outgoingOrders (receiveShipment e0) @
               [fst (calculateAIOrder (receiveShipment e0) strategy ord rnd rand)],
             orderHistory := orderHistory (receiveShipment e0) @ [ord],
             stockoutCosts := stockoutCosts (receiveShipment e0) + real_of_int (ord - min ord (inventory e)) * 1.0,
             holdingCosts := holdingCosts (receiveShipment e0) + real_of_int (inventory (receiveShipment e0)) * 0.5,
             inventoryHistory := inventoryHistory (receiveShipment e0) @ [inventory (receiveShipment e0)]\<rparr>"
    by (simp add: aiProcess_def Let_def e0_def ord_def)
  then show "nonneg_entity (fst (aiProcess e incoming strategy rnd rand))"
    using e1 calculateAIOrder_nonneg [of "receiveShipment e0" strategy ord rnd rand]
    by (auto simp add: nonneg_entity_def)
  show "0 \<le> fst (snd (aiProcess e incoming strategy rnd rand))"
    using ord assms(1) by (simp add: aiProcess_def Let_def ord_def nonneg_entity_def)
qed

lemma playerProcess_nonneg:
  assumes "nonneg_entity e" "0 \<le> quantity"
  shows "nonneg_entity (playerProcess e quantity)"
proof -
  define ord where "ord = fst (shift_or_0 (incomingOrders e))"
  define e0 where "e0 = e\<lparr>incomingOrders := snd (shift_or_0 (incomingOrders e)),
                    inventory := inventory e - min ord (inventory e),
                    unfulfilledDemand := unfulfilledDemand e + (ord - min ord (inventory e))\<rparr>"
  have q: "\<forall>x \<in> set (incomingOrders e). 0 \<le> x"
    using assms by (auto simp add: nonneg_entity_def)
  have "nonneg_entity e0"
    using assms(1) shift_or_0_nonneg [OF q] by (auto simp add: nonneg_entity_def e0_def ord_def)
  then have e1: "nonneg_entity (receiveShipment e0)" by (rule receiveShipment_nonneg)
  have "playerProcess e quantity =
          (receiveShipment e0)\<lparr>outgoingOrders := outgoingOrders (receiveShipment e0) @ [quantity],
             orderHistory := orderHistory (receiveShipment e0) @ [ord],
             stockoutCosts := stockoutCosts (receiveShipment e0) + real_of_int (ord - min ord (inventory e)) * 1.0,
             holdingCosts := holdingCosts (receiveShipment e0) + real_of_int (inventory (receiveShipment e0)) * 0.5,
             inventoryHistory := inventoryHistory (receiveShipment e0) @ [inventory (receiveShipment e0)]\<rparr>"
    by (simp add: playerProcess_def Let_def e0_def ord_def)
  then show ?thesis
    using e1 assms(2) by (auto simp add: nonneg_entity_def)
qed

lemma aiIteration_nonneg:
  assumes "aiIteration rnd p roleId (g, rand) = Inr (g', rand')" and "roleId \<in> set aiRoleOrder"
    and "nonneg_state g"
  shows "nonneg_state g'"
  using assms(1,2)
proof (cases rule: aiIteration_InrE)
  case skip
  with assms(3) show ?thesis by simp
next
  case (retailer d rand1 e)
  have "nonneg_entity e" using assms(3) retailer(4) by (auto simp add: nonneg_state_def)
  then have "nonneg_entity (fst (aiProcess e d (getAIStrategy roleId rnd) rnd rand1))"
    using getCustomerDemand_nonneg [OF retailer(3)] by (rule aiProcess_nonneg)
  with assms(3) retailer(5) show ?thesis
    by (auto simp add: nonneg_state_def)
next
  case (other de e)
  have e: "nonneg_entity e" and de: "nonneg_entity de"
    using assms(3) other(4,5) by (auto simp add: nonneg_state_def)
  have inc: "0 \<le> fst (shift_or_0 (outgoingOrders de))"
    and rest: "\<forall>x \<in> set (snd (shift_or_0 (outgoingOrders de))). 0 \<le> x"
    using shift_or_0_nonneg [of "outgoingOrders de"] de by (auto simp add: nonneg_entity_def)
  note ap = aiProcess_nonneg [OF e inc, of "getAIStrategy roleId rnd" rnd rand]
  have "nonneg_entity (de\<lparr>outgoingOrders := snd (shift_or_0 (outgoingOrders de)),
                    incomingShipments := incomingShipments de @
                      [fst (snd (aiProcess e (fst (shift_or_0 (outgoingOrders de)))
                                   (getAIStrategy roleId rnd) rnd rand))]\<rparr>)"
    using de rest ap(2) by (auto simp add: nonneg_entity_def)
  with assms(3) other(6) ap(1) show ?thesis
    by (auto simp add: nonneg_state_def)
qed

lemma processAIEntities_nonneg:
  assumes "processAIEntities rnd p (g, rand) = Inr (g', rand')" and "nonneg_state g"
  shows "nonneg_state g'"
  using assms(1)
proof (cases rule: processAIEntities_InrE)
  case (1 g1 se me)
  have "nonneg_state (fst (g1, rand'))"
    using 1(1)
  proof (rule forEachRole_invariant [where P = "\<lambda>st. nonneg_state (fst st)"])
    show "nonneg_state (fst (g, rand))" using assms(2) by simp
  next
    fix roleId st st'
    assume "roleId \<in> set aiRoleOrder" "nonneg_state (fst st)" "aiIteration rnd p roleId st = Inr st'"
    then show "nonneg_state (fst st')"
      using aiIteration_nonneg [of rnd p roleId "fst st" "snd st" "fst st'" "snd st'"] by simp
  qed
  then have g1: "nonneg_state g1" by simp
  then have se: "nonneg_entity se" and "nonneg_entity me"
    using 1(2,3) by (auto simp add: nonneg_state_def)
  moreover have "0 \<le> (if incomingOrders se = [] then 0
               else incomingOrders se ! (length (incomingOrders se) - 1))"
    using se by (auto simp add: nonneg_entity_def)
  ultimately have "nonneg_entity (me\<lparr>incomingShipments := incomingShipments me @
              [if incomingOrders se = [] then 0
               else incomingOrders se ! (length (incomingOrders se) - 1)]\<rparr>)"
    by (auto simp add: nonneg_entity_def)
  with g1 1(4) show ?thesis by (auto simp add: nonneg_state_def)
qed

lemma processPlayerOrder_nonneg:
  assumes "processPlayerOrder roleId quantity rnd (g, rand) = Inr (res, g', rand')"
    and "nonneg_state g" "0 \<le> quantity"
  shows "nonneg_state g'"
proof -
  from assms obtain e where e: "entities g roleId = Some e"
    by (auto simp add: processPlayerOrder_alt split: option.splits)
  define g1 where "g1 = g\<lparr>entities := (entities g)(roleId \<mapsto> playerProcess e quantity)\<rparr>"
  from assms e have ai: "processAIEntities rnd roleId (g1, rand) = Inr (g', rand')"
    by (auto simp add: processPlayerOrder_alt g1_def Let_def split: option.splits sum.splits)
  have "nonneg_entity (playerProcess e quantity)"
    using assms(2,3) e by (auto simp add: nonneg_state_def intro: playerProcess_nonneg)
  then have "nonneg_state g1"
    using assms(2) by (auto simp add: nonneg_state_def g1_def)
  with ai show ?thesis by (rule processAIEntities_nonneg)
qed


section \<open>The round processor: it returns whatever the round number\<close>

lemma round_rel_dom: "round_rel S g g' \<Longrightarrow> entities g' r = None \<longleftrightarrow> entities g r = None"
  unfolding round_rel_def
  by (cases "r \<in> S"; cases "entities g r"; cases "entities g' r")
     (auto simp add: option.rel_sel dest: spec [where x = r])

lemma aiIteration_demandTrend:
  assumes "aiIteration rnd p roleId (g, rand) = Inr (g', rand')" and "roleId \<in> set aiRoleOrder"
  shows "demandTrend g' = demandTrend g"
  using assms by (cases rule: aiIteration_InrE) simp_all

lemma aiIteration_chain_present:
  assumes "aiIteration rnd p roleId (g, rand) = Inr (g', rand')" and "roleId \<in> set aiRoleOrder"
    and "chain_present g"
  shows "chain_present g'"
  using assms(3) aiIteration_demandTrend [OF assms(1,2)]
    round_rel_dom [OF aiIteration_round_rel [OF assms(1,2)]]
  by (simp add: chain_present_def)

lemma getCustomerDemand_succeeds:
  "length (demandTrend g) = 20 \<Longrightarrow> \<exists>d rand'. getCustomerDemand g rnd rand = Inr (d, rand')"
  by (auto simp add: getCustomerDemand_def Let_def)

lemma aiIteration_succeeds:
  assumes "chain_present g" "roleId \<in> set aiRoleOrder"
  shows "\<exists>g' rand'. aiIteration rnd p roleId (g, rand) = Inr (g', rand')"
proof (cases "roleId = p")
  case True
  then show ?thesis by (simp add: aiIteration_alt)
next
  case np: False
  obtain e where e: "entities g roleId = Some e"
    using assms by (auto simp add: chain_present_def)
  show ?thesis
  proof (cases "roleId = ''retailer''")
    case True
    obtain d rand1 where "getCustomerDemand g rnd rand = Inr (d, rand1)"
      using getCustomerDemand_succeeds assms(1) unfolding chain_present_def by blast
    with np True e show ?thesis by (simp add: aiIteration_alt)
  next
    case nr: False
    have din: "downstreamOf roleId \<in> set aiRoleOrder" "downstreamOf roleId \<noteq> roleId"
      using downstreamOf_in [OF assms(2) nr] by auto
    obtain de where "entities g (downstreamOf roleId) = Some de"
      using assms(1) din(1) by (auto simp add: chain_present_def)
    with np nr e din(2) show ?thesis by (simp add: aiIteration_alt Let_def)
  qed
qed

lemma forEachRole_succeeds:
  assumes "chain_present g" "set rs \<subseteq> set aiRoleOrder"
  shows "\<exists>g' rand'. forEachRole rnd p rs (g, rand) = Inr (g', rand') \<and> chain_present g'"
  using assms
proof (induction rs arbitrary: g rand)
  case Nil
  then show ?case by simp
next
  case (Cons r rs)
  then have r: "r \<in> set aiRoleOrder" by simp
  obtain g1 rand1 where 1: "aiIteration rnd p r (g, rand) = Inr (g1, rand1)"
    using aiIteration_succeeds [OF Cons.prems(1) r] by blast
  have "chain_present g1" using aiIteration_chain_present [OF 1 r Cons.prems(1)] .
  then obtain g' rand' where "forEachRole rnd p rs (g1, rand1) = Inr (g', rand')" "chain_present g'"
    using Cons.IH [of g1 rand1] Cons.prems(2) by auto
  with 1 show ?case by simp
qed

lemma processAIEntities_succeeds:
  assumes "chain_present g"
  shows "\<exists>g' rand'. processAIEntities rnd p (g, rand) = Inr (g', rand')"
proof -
  obtain g1 rand1 where 1: "forEachRole rnd p aiRoleOrder (g, rand) = Inr (g1, rand1)"
    and c: "chain_present g1"
    using forEachRole_succeeds [OF assms subset_refl] by blast
  from c obtain se me where "entities g1 ''supplier'' = Some se" "entities g1 ''manufacturer'' = Some me"
    by (auto simp add: chain_present_def aiRoleOrder_def)
  with 1 show ?thesis by (simp add: processAIEntities_def Let_def)
qed

lemma processAIEntities_demandTrend:
  assumes "processAIEntities rnd p (g, rand) = Inr (g', rand')"
  shows "demandTrend g' = demandTrend g"
  using assms
proof (cases rule: processAIEntities_InrE)
  case (1 g1 se me)
  have "demandTrend (fst (g1, rand')) = demandTrend g"
    using 1(1)
  proof (rule forEachRole_invariant [where P = "\<lambda>st. demandTrend (fst st) = demandTrend g"])
    show "demandTrend (fst (g, rand)) = demandTrend g" by simp
  next
    fix r st st'
    assume "r \<in> set aiRoleOrder" "demandTrend (fst st) = demandTrend g"
      "aiIteration rnd p r st = Inr st'"
    then show "demandTrend (fst st') = demandTrend g"
      using aiIteration_demandTrend [of rnd p r "fst st" "snd st" "fst st'" "snd st'"] by simp
  qed
  with 1(4) show ?thesis by simp
qed

lemma processPlayerOrder_chain_present:
  assumes "processPlayerOrder roleId quantity rnd (g, rand) = Inr (res, g', rand')" "chain_present g"
  shows "chain_present g'"
proof -
  from assms obtain e where e: "entities g roleId = Some e"
    by (auto simp add: processPlayerOrder_alt split: option.splits)
  define g1 where "g1 = g\<lparr>entities := (entities g)(roleId \<mapsto> playerProcess e quantity)\<rparr>"
  from assms e have ai: "processAIEntities rnd roleId (g1, rand) = Inr (g', rand')"
    by (auto simp add: processPlayerOrder_alt g1_def Let_def split: option.splits sum.splits)
  have "demandTrend g' = demandTrend g"
    using processAIEntities_demandTrend [OF ai] by (simp add: g1_def)
  then show ?thesis
    using assms(2) round_rel_dom [OF processPlayerOrder_round_rel [OF assms(1)]]
    by (simp add: chain_present_def)
qed

lemma processPlayerOrder_succeeds:
  assumes "chain_present g" "entities g roleId \<noteq> None"
  shows "\<exists>res g' rand'. processPlayerOrder roleId quantity rnd (g, rand) = Inr (res, g', rand')"
proof -
  from assms(2) obtain e where e: "entities g roleId = Some e" by auto
  define g1 where "g1 = g\<lparr>entities := (entities g)(roleId \<mapsto> playerProcess e quantity)\<rparr>"
  have c1: "chain_present g1" using assms(1) by (simp add: chain_present_def g1_def)
  obtain g' rand' where ai: "processAIEntities rnd roleId (g1, rand) = Inr (g', rand')"
    using processAIEntities_succeeds [OF c1] by blast
  have "entities g' roleId \<noteq> None"
    using round_rel_dom [OF processAIEntities_round_rel [OF ai], of roleId] by (simp add: g1_def)
  then obtain e' where "entities g' roleId = Some e'" by auto
  with e ai show ?thesis by (simp add: processPlayerOrder_alt g1_def Let_def)
qed

section \<open>The engine as constructed, and sessions\<close>

lemma fold_new_entity:
  "fold (\<lambda>r es. es(role_id r \<mapsto> new_entity r)) rs m k = Some e \<Longrightarrow>
     m k = Some e \<or> (\<exists>r \<in> set rs. e = new_entity r)"
proof (induction rs arbitrary: m)
  case Nil
  then show ?case by simp
next
  case (Cons a rs)
  from Cons.prems have "fold (\<lambda>r es. es(role_id r \<mapsto> new_entity r)) rs
          (m(role_id a \<mapsto> new_entity a)) k = Some e" by (simp only: fold.simps o_apply)
  from Cons.IH [OF this] show ?case by (auto split: if_splits)
qed

lemma fold_new_entity_dom:
  "dom (fold (\<lambda>r es. es(role_id r \<mapsto> new_entity r)) rs m) = dom m \<union> role_id ` set rs"
  by (induction rs arbitrary: m) auto

lemma GameEngine_entity:
  "entities (GameEngine rs pn) k = Some e \<Longrightarrow> \<exists>r \<in> set rs. e = new_entity r"
  using fold_new_entity [of rs Map.empty k e] by (simp add: GameEngine_def)

lemma GameEngine_nonneg: "nonneg_state (GameEngine rs pn)"
  by (auto simp add: nonneg_state_def nonneg_entity_def new_entity_def dest!: GameEngine_entity)

lemma GameEngine_no_stockout_history: "no_stockout_history (GameEngine rs pn)"
  by (auto simp add: no_stockout_history_def new_entity_def dest!: GameEngine_entity)

lemma GameEngine_orders_idle: "orders_idle (GameEngine rs pn)"
  by (auto simp add: orders_idle_def new_entity_def dest!: GameEngine_entity)

lemma length_generateDemandTrend: "length generateDemandTrend = 20"
  by (simp add: generateDemandTrend_def)

lemma GameEngine_chain_present:
  "set aiRoleOrder \<subseteq> role_id ` set rs \<Longrightarrow> chain_present (GameEngine rs pn)"
  using fold_new_entity_dom [of rs Map.empty]
  by (auto simp add: chain_present_def GameEngine_def length_generateDemandTrend dom_def)

lemma round_rel_no_stockout_history:
  assumes "round_rel S g g'" "no_stockout_history g"
  shows "no_stockout_history g'"
  unfolding no_stockout_history_def
proof (intro allI impI)
  fix r e'
  assume e': "entities g' r = Some e'"
  show "stockoutHistory e' = None"
  proof (cases "r \<in> S")
    case True
    then obtain e where "entities g r = Some e" "processed e e'"
      using assms(1) e' unfolding round_rel_def by fastforce
    then show ?thesis using assms(2) by (auto simp add: processed_def no_stockout_history_def)
  next
    case False
    then have "rel_option same_core (entities g r) (entities g' r)"
      using assms(1) unfolding round_rel_def by blast
    then obtain e where "entities g r = Some e" "same_core e e'"
      using e' by (cases "entities g r") auto
    then show ?thesis using assms(2) by (auto simp add: same_core_def no_stockout_history_def)
  qed
qed

lemma round_rel_orders_idle:
  assumes "round_rel S g g'" "orders_idle g"
  shows "orders_idle g'"
  unfolding orders_idle_def
proof (intro allI impI)
  fix r e'
  assume e': "entities g' r = Some e'"
  show "incomingOrders e' = []"
  proof (cases "r \<in> S")
    case True
    then obtain e where "entities g r = Some e" "processed e e'"
      using assms(1) e' unfolding round_rel_def by fastforce
    then show ?thesis using assms(2) by (auto simp add: processed_def orders_idle_def)
  next
    case False
    then have "rel_option same_core (entities g r) (entities g' r)"
      using assms(1) unfolding round_rel_def by blast
    then obtain e where "entities g r = Some e" "same_core e e'"
      using e' by (cases "entities g r") auto
    then show ?thesis using assms(2) by (auto simp add: same_core_def orders_idle_def)
  qed
qed

lemma play_invariant:
  assumes "play calls st = Inr st'" and "P st"
    and "\<And>roleId quantity rnd st res st'.
           (roleId, quantity, rnd) \<in> set calls \<Longrightarrow> P st \<Longrightarrow>
           processPlayerOrder roleId quantity rnd st = Inr (res, st') \<Longrightarrow> P st'"
  shows "P st'"
  using assms
proof (induction calls arbitrary: st)
  case Nil
  then show ?case by simp
next
  case (Cons c calls)
  obtain roleId quantity rnd where c: "c = (roleId, quantity, rnd)" by (cases c)
  from Cons.prems(1) c obtain res st1 where
    1: "processPlayerOrder roleId quantity rnd st = Inr (res, st1)" and 2: "play calls st1 = Inr st'"
    by (auto split: sum.splits)
  have st1: "P st1" using Cons.prems(3) [of roleId quantity rnd st res st1] Cons.prems(2) 1 c by simp
  have "\<And>roleId quantity rnd st res st'.
           (roleId, quantity, rnd) \<in> set calls \<Longrightarrow> P st \<Longrightarrow>
           processPlayerOrder roleId quantity rnd st = Inr (res, st') \<Longrightarrow> P st'"
    using Cons.prems(3) by (meson list.set_intros(2))
  from Cons.IH [OF 2 st1 this] show ?case .
qed

lemma play_no_stockout_history:
  assumes "play calls (GameEngine rs pn, rand) = Inr (g, rand')"
  shows "no_stockout_history g"
proof -
  have "no_stockout_history (fst (g, rand'))"
    using assms
  proof (rule play_invariant [where P = "\<lambda>st. no_stockout_history (fst st)"])
    show "no_stockout_history (fst (GameEngine rs pn, rand))"
      by (simp add: GameEngine_no_stockout_history)
  next
    fix roleId quantity rnd st res st'
    assume "no_stockout_history (fst st)" "processPlayerOrder roleId quantity rnd st = Inr (res, st')"
    then show "no_stockout_history (fst st')"
      using processPlayerOrder_round_rel [of roleId quantity rnd "fst st" "snd st" res "fst st'" "snd st'"]
      by (auto intro: round_rel_no_stockout_history)
  qed
  then show ?thesis by simp
qed

lemma play_orders_idle:
  assumes "play calls (GameEngine rs pn, rand) = Inr (g, rand')"
  shows "orders_idle g"
proof -
  have "orders_idle (fst (g, rand'))"
    using assms
  proof (rule play_invariant [where P = "\<lambda>st. orders_idle (fst st)"])
    show "orders_idle (fst (GameEngine rs pn, rand))"
      by (simp add: GameEngine_orders_idle)
  next
    fix roleId quantity rnd st res st'
    assume "orders_idle (fst st)" "processPlayerOrder roleId quantity rnd st = Inr (res, st')"
    then show "orders_idle (fst st')"
      using processPlayerOrder_round_rel [of roleId quantity rnd "fst st" "snd st" res "fst st'" "snd st'"]
      by (auto intro: round_rel_orders_idle)
  qed
  then show ?thesis by simp
qed

lemma play_nonneg:
  assumes "play calls (GameEngine rs pn, rand) = Inr (g, rand')"
    and "\<forall>(roleId, quantity, rnd) \<in> set calls. 0 \<le> quantity"
  shows "nonneg_state g"
proof -
  have "nonneg_state (fst (g, rand'))"
    using assms(1)
  proof (rule play_invariant [where P = "\<lambda>st. nonneg_state (fst st)"])
    show "nonneg_state (fst (GameEngine rs pn, rand))"
      by (simp add: GameEngine_nonneg)
  next
    fix roleId quantity rnd st res st'
    assume "(roleId, quantity, rnd) \<in> set calls" "nonneg_state (fst st)"
      "processPlayerOrder roleId quantity rnd st = Inr (res, st')"
    then show "nonneg_state (fst st')"
      using processPlayerOrder_nonneg [of roleId quantity rnd "fst st" "snd st" res "fst st'" "snd st'"]
        assms(2)
      by auto
  qed
  then show ?thesis by simp
qed


lemma play_succeeds:
  assumes "chain_present g" "\<forall>(roleId, quantity, rnd) \<in> set calls. entities g roleId \<noteq> None"
  shows "\<exists>st'. play calls (g, rand) = Inr st'"
  using assms
proof (induction calls arbitrary: g rand)
  case Nil
  then show ?case by simp
next
  case (Cons c calls)
  obtain roleId quantity rnd where c: "c = (roleId, quantity, rnd)" by (cases c)
  have "entities g roleId \<noteq> None" using Cons.prems(2) c by simp
  then obtain res g1 rand1 where
    1: "processPlayerOrder roleId quantity rnd (g, rand) = Inr (res, g1, rand1)"
    using processPlayerOrder_succeeds [OF Cons.prems(1)] by blast
  have "chain_present g1" using processPlayerOrder_chain_present [OF 1 Cons.prems(1)] .
  moreover have "\<forall>(roleId, quantity, rnd) \<in> set calls. entities g1 roleId \<noteq> None"
    using Cons.prems(2) round_rel_dom [OF processPlayerOrder_round_rel [OF 1]] by auto
  ultimately obtain st' where "play calls (g1, rand1) = Inr st'"
    using Cons.IH by blast
  with 1 c show ?case by simp
qed

text \<open>
  Nothing is ever left in an \<open>incomingOrders\<close> queue. So, on every state that the engine
  produces, the order that \<open>processPlayerOrder\<close> processes for the player's role is \<open>0\<close>,
  and the block after the loop of \<open>processAIEntities\<close> pushes \<open>0\<close> to the manufacturer.
\<close>

lemma player_order_is_zero:
  assumes "play calls (GameEngine rs pn, rand0) = Inr (g, rand)"
    and "processPlayerOrder roleId quantity rnd (g, rand) = Inr (res, g', rand')"
  shows "fulfilled res + unfulfilled res = 0"
proof -
  have "orders_idle g" using assms(1) by (rule play_orders_idle)
  then show ?thesis
    using processPlayerOrder_result [OF assms(2)]
    by (auto simp add: orders_idle_def shift_or_0_def)
qed

lemma supplier_block_pushes_zero:
  assumes "play calls (GameEngine rs pn, rand0) = Inr (g, rand)"
    and "processPlayerOrder roleId quantity rnd (g, rand) = Inr (res, g', rand')"
  shows "\<exists>me. entities g' ''manufacturer'' = Some me \<and> incomingShipments me \<noteq> [] \<and>
           last (incomingShipments me) = 0"
proof -
  have idle: "orders_idle g" using assms(1) by (rule play_orders_idle)
  from assms(2) obtain e where e: "entities g roleId = Some e"
    by (auto simp add: processPlayerOrder_alt split: option.splits)
  define g1 where "g1 = g\<lparr>entities := (entities g)(roleId \<mapsto> playerProcess e quantity)\<rparr>"
  from assms(2) e have ai: "processAIEntities rnd roleId (g1, rand) = Inr (g', rand')"
    by (auto simp add: processPlayerOrder_alt g1_def Let_def split: option.splits sum.splits)
  have "round_rel {roleId} g g1"
    using e by (auto simp add: round_rel_def g1_def playerProcess_processed)
  then have idle1: "orders_idle g1" using idle by (rule round_rel_orders_idle)
  from ai show ?thesis
  proof (cases rule: processAIEntities_InrE)
    case (1 g2 se me)
    have "orders_idle g2"
      using forEachRole_round_rel [OF 1(1)] idle1
      by (auto intro: round_rel_orders_idle simp add: aiRoleOrder_def)
    then have "incomingOrders se = []" using 1(2) by (simp add: orders_idle_def)
    with 1(4) show ?thesis by simp
  qed
qed

section \<open>Evaluation on concrete inputs\<close>

lemma generateDemandTrend_list:
  "generateDemandTrend =
    [\<lparr>min' = 4, max' = 6, volatility = 0.1\<rparr>, \<lparr>min' = 4, max' = 6, volatility = 0.1\<rparr>,
     \<lparr>min' = 4, max' = 6, volatility = 0.1\<rparr>, \<lparr>min' = 4, max' = 6, volatility = 0.1\<rparr>,
     \<lparr>min' = 4, max' = 6, volatility = 0.1\<rparr>,
     \<lparr>min' = 5, max' = 7, volatility = 0.15\<rparr>, \<lparr>min' = 6, max' = 8, volatility = 0.15\<rparr>,
     \<lparr>min' = 7, max' = 9, volatility = 0.15\<rparr>, \<lparr>min' = 8, max' = 10, volatility = 0.15\<rparr>,
     \<lparr>min' = 8, max' = 12, volatility = 0.2\<rparr>, \<lparr>min' = 8, max' = 12, volatility = 0.2\<rparr>,
     \<lparr>min' = 8, max' = 12, volatility = 0.2\<rparr>,
     \<lparr>min' = 6, max' = 8, volatility = 0.15\<rparr>, \<lparr>min' = 5, max' = 7, volatility = 0.15\<rparr>,
     \<lparr>min' = 4, max' = 6, volatility = 0.15\<rparr>,
     \<lparr>min' = 4, max' = 6, volatility = 0.1\<rparr>, \<lparr>min' = 4, max' = 6, volatility = 0.1\<rparr>,
     \<lparr>min' = 4, max' = 6, volatility = 0.1\<rparr>,
     \<lparr>min' = 7, max' = 10, volatility = 0.2\<rparr>, \<lparr>min' = 7, max' = 10, volatility = 0.2\<rparr>]"
  by (simp add: generateDemandTrend_def eval_nat_numeral)

text \<open>
  The simplifier evaluates a round on concrete entities with these equations; the weak
  congruence rules make it evaluate what a \<open>case\<close>, an \<open>if\<close> or a \<open>let\<close> inspects before
  it looks at the branches.
\<close>

lemmas weak_congs =
  if_weak_cong let_weak_cong sum.case_cong_weak option.case_cong_weak
  prod.case_cong_weak list.case_cong_weak

lemmas round_eval =
  processPlayerOrder_alt playerProcess_def processAIEntities_def aiIteration_def
  calculateAIOrder_def getAIStrategy_def getCustomerDemand_def generateDemandTrend_list
  shift_or_0_def receiveShipment_def downstreamOf_def aiRoleOrder_def GameEngine_def
  fiveRoles_def new_entity_def halves_def zeros_def slice_last_def Let_def round_def

lemma fiveRoles_chain_present: "chain_present (GameEngine fiveRoles pn)"
  by (rule GameEngine_chain_present) (simp add: fiveRoles_def image_image)

section \<open>Claims about the round processor\<close>

text \<open>
  Claim C3 (as stated, refuted). \<open>processPlayerOrder\<close> has no check of the round: on the
  engine as constructed it returns a result for round \<open>0\<close> and for round \<open>21\<close>, and a
  session that plays round \<open>3\<close> and then round \<open>1\<close> runs through.
\<close>

theorem processPlayerOrder_accepts_any_round:
  "processPlayerOrder ''retailer'' 5 0 (GameEngine fiveRoles ''p'', halves) \<noteq> Inl TypeError \<and>
   (\<exists>g rand. processPlayerOrder ''retailer'' 5 21 (GameEngine fiveRoles ''p'', halves) =
      Inr (\<lparr>newInventory = 12, stockoutCost = 0, holdingCost = 6, fulfilled = 0, unfulfilled = 0\<rparr>,
           g, rand)) \<and>
   (\<exists>st. play [(''retailer'', 5, 3), (''retailer'', 5, 1)] (GameEngine fiveRoles ''p'', halves) = Inr st)"
proof (intro conjI)
  show "processPlayerOrder ''retailer'' 5 0 (GameEngine fiveRoles ''p'', halves) \<noteq> Inl TypeError"
    by (simp add: round_eval cong: weak_congs)
  show "\<exists>g rand. processPlayerOrder ''retailer'' 5 21 (GameEngine fiveRoles ''p'', halves) =
      Inr (\<lparr>newInventory = 12, stockoutCost = 0, holdingCost = 6, fulfilled = 0, unfulfilled = 0\<rparr>,
           g, rand)"
    by (simp add: round_eval cong: weak_congs)
  have "\<forall>(roleId, quantity, rnd) \<in> set [(''retailer'', 5, 3), (''retailer'', 5 :: int, 1 :: int)].
          entities (GameEngine fiveRoles ''p'') roleId \<noteq> None"
    by (simp add: GameEngine_def fiveRoles_def aiRoleOrder_def)
  with fiveRoles_chain_present
  show "\<exists>st. play [(''retailer'', 5, 3), (''retailer'', 5, 1)] (GameEngine fiveRoles ''p'', halves) = Inr st"
    by (rule play_succeeds)
qed

text \<open>
  Claim C3 (amended). \<open>processPlayerOrder\<close> fails, with the \<open>TypeError\<close> of reading a
  property of \<open>undefined\<close>, when the role has no entity; when it has one, on an engine
  that holds the five entities of the chain and the 20-phase schedule, the call returns a
  result for every value of \<open>round\<close>.
\<close>

theorem processPlayerOrder_failures:
  "(entities g roleId = None \<longrightarrow> processPlayerOrder roleId quantity rnd (g, rand) = Inl TypeError) \<and>
   (chain_present g \<and> entities g roleId \<noteq> None \<longrightarrow>
      (\<exists>res st'. processPlayerOrder roleId quantity rnd (g, rand) = Inr (res, st')))"
  using processPlayerOrder_succeeds [of g roleId quantity rnd rand]
  by (auto simp add: processPlayerOrder_alt)

theorem processPlayerOrder_failures_witness:
  "processPlayerOrder ''customer'' 5 1 (GameEngine fiveRoles ''p'', halves) = Inl TypeError \<and>
   (\<exists>res st'. processPlayerOrder ''retailer'' 5 (- 7) (GameEngine fiveRoles ''p'', halves) = Inr (res, st'))"
proof -
  have 1: "entities (GameEngine fiveRoles ''p'') ''customer'' = None"
    by (simp add: GameEngine_def fiveRoles_def aiRoleOrder_def)
  have 2: "entities (GameEngine fiveRoles ''p'') ''retailer'' \<noteq> None"
    by (simp add: GameEngine_def fiveRoles_def aiRoleOrder_def)
  have 3: "chain_present (GameEngine fiveRoles ''p'')"
    by (simp add: chain_present_def GameEngine_def fiveRoles_def aiRoleOrder_def
        generateDemandTrend_list)
  show ?thesis
    using processPlayerOrder_failures [of "GameEngine fiveRoles ''p''" "''customer''" 5 1 halves]
      processPlayerOrder_failures [of "GameEngine fiveRoles ''p''" "''retailer''" 5 "- 7" halves]
      1 2 3
    by simp
qed


text \<open>
  Claim C1 (the code departs from it). On the engine as constructed the customer demand
  of round \<open>1\<close> is \<open>5\<close> under these draws, yet \<open>processPlayerOrder\<close> for the retailer
  processes the order \<open>0\<close>: nothing is fulfilled, nothing is unfulfilled, and \<open>0\<close> is what
  enters the retailer's order history.
\<close>

theorem player_retailer_ignores_demand:
  "getCustomerDemand (GameEngine fiveRoles ''p'') 1 halves = Inr (5, halves) \<and>
   (\<exists>g rand. processPlayerOrder ''retailer'' 5 1 (GameEngine fiveRoles ''p'', halves) =
      Inr (\<lparr>newInventory = 12, stockoutCost = 0, holdingCost = 6, fulfilled = 0, unfulfilled = 0\<rparr>,
           g, rand) \<and>
      map_option orderHistory (entities g ''retailer'') = Some [0])"
  by (simp add: round_eval cong: weak_congs)

text \<open>
  Claim C2 (the code departs from it). The player, as manufacturer, orders \<open>20\<close> in round
  \<open>1\<close>: the supplier receives that order (its order history is \<open>[20]\<close>) and holds \<open>12\<close>.
  What reaches the manufacturer's \<open>incomingShipments\<close> is \<open>12\<close>, the fulfilled amount
  pushed inside the loop, and then \<open>0\<close>, pushed by the block after the loop: never \<open>20\<close>.
\<close>

theorem supplier_dispatch_is_not_its_order:
  "\<exists>res g rand. processPlayerOrder ''manufacturer'' 20 1 (GameEngine fiveRoles ''p'', halves) =
       Inr (res, g, rand) \<and>
     map_option orderHistory (entities g ''supplier'') = Some [20] \<and>
     map_option unfulfilledDemand (entities g ''supplier'') = Some 8 \<and>
     map_option incomingShipments (entities g ''manufacturer'') = Some [12, 0]"
  by (simp add: round_eval cong: weak_congs)

text \<open>
  Claim C6 (the code departs from it). The player is the retailer and orders \<open>7\<close> in round
  \<open>1\<close> and \<open>5\<close> in round \<open>2\<close>. In round \<open>1\<close> the supplier's two pushes leave \<open>[7, 0]\<close> on the
  manufacturer's \<open>incomingShipments\<close>, so in round \<open>2\<close> the queue holds two entries and the
  manufacturer, left with \<open>0\<close> after fulfilling, takes the \<open>7\<close> dispatched one round before
  into its inventory. The wholesaler, which gets one push a round, receives nothing in
  round \<open>2\<close>.
\<close>

theorem manufacturer_receives_after_one_round:
  "(\<exists>g rand. play [(''retailer'', 7, 1)] (GameEngine fiveRoles ''p'', halves) = Inr (g, rand) \<and>
      map_option inventoryHistory (entities g ''manufacturer'') = Some [12, 5] \<and>
      map_option incomingShipments (entities g ''manufacturer'') = Some [7, 0] \<and>
      map_option incomingShipments (entities g ''wholesaler'') = Some [7]) \<and>
   (\<exists>g rand. play [(''retailer'', 7, 1), (''retailer'', 5, 2)] (GameEngine fiveRoles ''p'', halves) =
        Inr (g, rand) \<and>
      map_option orderHistory (entities g ''manufacturer'') = Some [7, 10] \<and>
      map_option inventoryHistory (entities g ''manufacturer'') = Some [12, 5, 7] \<and>
      map_option incomingShipments (entities g ''manufacturer'') = Some [0, 5, 0] \<and>
      map_option inventoryHistory (entities g ''wholesaler'') = Some [12, 5, 0] \<and>
      map_option incomingShipments (entities g ''wholesaler'') = Some [7, 5])"
  by (simp add: round_eval cong: weak_congs)

text \<open>
  Claim C5 (as stated, refuted). The order quantity of the player is pushed as it comes.
  The player, as manufacturer, orders \<open>-100\<close> in round \<open>1\<close>: the supplier "fulfils" \<open>-100\<close>
  and dispatches it, and in round \<open>2\<close> the manufacturer receives it: its inventory is
  \<open>12 - 100\<close>.
\<close>

theorem negative_order_makes_inventory_negative:
  "\<exists>g rand. play [(''manufacturer'', - 100, 1), (''manufacturer'', 0, 2)]
       (GameEngine fiveRoles ''p'', halves) = Inr (g, rand) \<and>
     map_option inventory (entities g ''manufacturer'') = Some (- 88)"
  by (simp add: round_eval cong: weak_congs)

text \<open>
  Claim C5 (amended). Take an engine as constructed, after any session in which no order
  quantity of the player was negative, and process one more round with a non-negative
  quantity. Afterwards no entity has a negative inventory. Every role processed in the
  round (the five of the chain and the player's) had one order \<open>ord\<close> appended to its
  order history; with \<open>min ord inventory\<close> fulfilled from the inventory it held, which
  that leaves non-negative, the growth of its unfulfilled demand is the rest of \<open>ord\<close>.
  For the player's role these are the \<open>fulfilled\<close> and \<open>unfulfilled\<close> of the result.
\<close>

theorem round_keeps_inventory_nonneg:
  assumes "play calls (GameEngine rs pn, rand0) = Inr (g, rand)"
    and "\<forall>(roleId, quantity, rnd) \<in> set calls. 0 \<le> quantity"
    and "0 \<le> quantity"
    and "processPlayerOrder roleId quantity rnd (g, rand) = Inr (res, g', rand')"
  shows "(\<forall>r e'. entities g' r = Some e' \<longrightarrow> 0 \<le> inventory e') \<and>
         (\<forall>r \<in> insert roleId (set aiRoleOrder).
            \<exists>e e' ord. entities g r = Some e \<and> entities g' r = Some e' \<and>
              orderHistory e' = orderHistory e @ [ord] \<and>
              min ord (inventory e) + (unfulfilledDemand e' - unfulfilledDemand e) = ord \<and>
              0 \<le> inventory e - min ord (inventory e)) \<and>
         (\<exists>e e'. entities g roleId = Some e \<and> entities g' roleId = Some e' \<and>
              orderHistory e' = orderHistory e @ [fulfilled res + unfulfilled res] \<and>
              fulfilled res = min (fulfilled res + unfulfilled res) (inventory e) \<and>
              unfulfilledDemand e' = unfulfilledDemand e + unfulfilled res)"
proof (intro conjI)
  have g: "nonneg_state g" using play_nonneg [OF assms(1,2)] .
  have "nonneg_state g'" using processPlayerOrder_nonneg [OF assms(4) g assms(3)] .
  then show "\<forall>r e'. entities g' r = Some e' \<longrightarrow> 0 \<le> inventory e'"
    by (auto simp add: nonneg_state_def nonneg_entity_def)
  show "\<forall>r \<in> insert roleId (set aiRoleOrder).
            \<exists>e e' ord. entities g r = Some e \<and> entities g' r = Some e' \<and>
              orderHistory e' = orderHistory e @ [ord] \<and>
              min ord (inventory e) + (unfulfilledDemand e' - unfulfilledDemand e) = ord \<and>
              0 \<le> inventory e - min ord (inventory e)"
  proof
    fix r
    assume "r \<in> insert roleId (set aiRoleOrder)"
    then obtain e e' where e: "entities g r = Some e" "entities g' r = Some e'" "processed e e'"
      using processPlayerOrder_round_rel [OF assms(4)] unfolding round_rel_def by blast
    then obtain ord where "orderHistory e' = orderHistory e @ [ord]"
      "unfulfilledDemand e' = unfulfilledDemand e + (ord - min ord (inventory e))"
      by (auto simp add: processed_def)
    moreover have "0 \<le> inventory e"
      using g e(1) by (auto simp add: nonneg_state_def nonneg_entity_def)
    ultimately show "\<exists>e e' ord. entities g r = Some e \<and> entities g' r = Some e' \<and>
              orderHistory e' = orderHistory e @ [ord] \<and>
              min ord (inventory e) + (unfulfilledDemand e' - unfulfilledDemand e) = ord \<and>
              0 \<le> inventory e - min ord (inventory e)"
      using e(1,2) by auto
  qed
  show "\<exists>e e'. entities g roleId = Some e \<and> entities g' roleId = Some e' \<and>
              orderHistory e' = orderHistory e @ [fulfilled res + unfulfilled res] \<and>
              fulfilled res = min (fulfilled res + unfulfilled res) (inventory e) \<and>
              unfulfilledDemand e' = unfulfilledDemand e + unfulfilled res"
    using processPlayerOrder_result [OF assms(4)] by blast
qed

theorem round_keeps_inventory_nonneg_witness:
  "\<exists>g rand res g' rand'.
     play [(''wholesaler'', 9, 1)] (GameEngine fiveRoles ''p'', halves) = Inr (g, rand) \<and>
     processPlayerOrder ''distributor'' 4 2 (g, rand) = Inr (res, g', rand') \<and>
     (\<forall>r e'. entities g' r = Some e' \<longrightarrow> 0 \<le> inventory e') \<and>
     (\<exists>e e'. entities g ''distributor'' = Some e \<and> entities g' ''distributor'' = Some e' \<and>
        orderHistory e' = orderHistory e @ [fulfilled res + unfulfilled res] \<and>
        fulfilled res = min (fulfilled res + unfulfilled res) (inventory e) \<and>
        unfulfilledDemand e' = unfulfilledDemand e + unfulfilled res)"
proof -
  have q: "\<forall>(roleId, quantity, rnd) \<in> set [(''wholesaler'', 9 :: int, 1 :: int)]. 0 \<le> quantity"
    by simp
  have "\<exists>g rand. play [(''wholesaler'', 9, 1)] (GameEngine fiveRoles ''p'', halves) = Inr (g, rand) \<and>
      (\<exists>res g' rand'. processPlayerOrder ''distributor'' 4 2 (g, rand) = Inr (res, g', rand'))"
    by (simp add: round_eval cong: weak_congs)
  then obtain g rand res g' rand' where
    1: "play [(''wholesaler'', 9, 1)] (GameEngine fiveRoles ''p'', halves) = Inr (g, rand)" and
    2: "processPlayerOrder ''distributor'' 4 2 (g, rand) = Inr (res, g', rand')"
    by blast
  from round_keeps_inventory_nonneg [OF 1 q _ 2] 1 2 show ?thesis
    by (intro exI [of _ g] exI [of _ rand] exI [of _ res] exI [of _ g'] exI [of _ rand']) simp
qed

text \<open>
  Claim C10. \<open>ScoreCalculator.calculateResponsibilityScore\<close> is \<open>0\<close> for a role whose
  entity has no \<open>stockoutHistory\<close>; no entity of an engine as constructed has one, nor
  after any session, so on every state that the engine produces the score is \<open>0\<close>, for
  every role and every role order.
\<close>

theorem calculateResponsibilityScore_without_history:
  "(ents roleId = Some e \<and> stockoutHistory e = None \<longrightarrow>
      calculateResponsibilityScore roleId ents roleOrder = Inr 0) \<and>
   (play calls (GameEngine rs pn, rand) = Inr (g, rand') \<longrightarrow>
      calculateResponsibilityScore roleId (entities g) roleOrder = Inr 0)"
proof (intro conjI impI)
  assume "ents roleId = Some e \<and> stockoutHistory e = None"
  then show "calculateResponsibilityScore roleId ents roleOrder = Inr 0"
    by (simp add: calculateResponsibilityScore_def)
next
  assume "play calls (GameEngine rs pn, rand) = Inr (g, rand')"
  then have "no_stockout_history g" by (rule play_no_stockout_history)
  then show "calculateResponsibilityScore roleId (entities g) roleOrder = Inr 0"
    by (cases "entities g roleId")
       (auto simp add: calculateResponsibilityScore_def no_stockout_history_def)
qed

theorem calculateResponsibilityScore_without_history_witness:
  "calculateResponsibilityScore ''supplier'' (entities (GameEngine fiveRoles ''p'')) aiRoleOrder = Inr 0 \<and>
   (\<exists>g rand. play [(''manufacturer'', 20, 1)] (GameEngine fiveRoles ''p'', halves) = Inr (g, rand) \<and>
      map_option unfulfilledDemand (entities g ''supplier'') = Some 8 \<and>
      calculateResponsibilityScore ''supplier'' (entities g) aiRoleOrder = Inr 0)"
proof -
  have "\<exists>g rand. play [(''manufacturer'', 20, 1)] (GameEngine fiveRoles ''p'', halves) = Inr (g, rand) \<and>
      map_option unfulfilledDemand (entities g ''supplier'') = Some 8"
    by (simp add: round_eval cong: weak_congs)
  then obtain g rand where
    1: "play [(''manufacturer'', 20, 1)] (GameEngine fiveRoles ''p'', halves) = Inr (g, rand)" and
    2: "map_option unfulfilledDemand (entities g ''supplier'') = Some 8"
    by blast
  have 3: "entities (GameEngine fiveRoles ''p'') ''supplier'' =
             Some (new_entity \<lparr>role_id = ''supplier'', role_name = ''supplier''\<rparr>)"
    by (simp add: GameEngine_def fiveRoles_def aiRoleOrder_def)
  have 4: "stockoutHistory (new_entity \<lparr>role_id = ''supplier'', role_name = ''supplier''\<rparr>) = None"
    by (simp add: new_entity_def)
  show ?thesis
    using calculateResponsibilityScore_without_history
            [of "entities (GameEngine fiveRoles ''p'')" "''supplier''"
               "new_entity \<lparr>role_id = ''supplier'', role_name = ''supplier''\<rparr>" aiRoleOrder
               "[(''manufacturer'', 20, 1)]" fiveRoles "''p''" halves g rand]
          1 2 3 4
    by blast
qed


section \<open>Claims about the responsibility score\<close>

theorem calculateResponsibilityScore_lagged_witness:
  "calculateResponsibilityScore ''supplier'' (entities stockoutDemo) aiRoleOrder = Inr 2 \<and>
   lagged_attribution ''supplier'' (entities stockoutDemo) aiRoleOrder = 2"
proof -
  have 1: "\<forall>i<nat (indexOf aiRoleOrder ''supplier''). aiRoleOrder ! i \<in> dom (entities stockoutDemo)"
    by (auto simp add: aiRoleOrder_def stockoutDemo_def GameEngine_def fiveRoles_def less_Suc_eq
        eval_nat_numeral)
  have 2: "lagged_attribution ''supplier'' (entities stockoutDemo) aiRoleOrder = 2"
    by (simp add: lagged_attribution_def rounds_recorded_def stockout_at_def stockoutDemo_def
        GameEngine_def fiveRoles_def aiRoleOrder_def new_entity_def Let_def upt_conv_Cons)
  from calculateResponsibilityScore_lagged [OF 1] 2 show ?thesis by simp
qed

text \<open>
  Claim C4 (as stated, refuted). The score that \<open>getFinalResults\<close> reports is the method
  \<open>GameEngine.calculateResponsibilityScore\<close>, which has no lag: on \<open>stockoutDemo\<close> it
  gives the supplier \<open>min 3 3 = 3\<close> for the manufacturer's accumulated stockout, where the
  lagged attribution is \<open>min 3 2 = 2\<close>, for the manufacturer's stockout of round \<open>2\<close> alone.
\<close>

theorem engine_score_is_not_lagged:
  "GameEngine_calculateResponsibilityScore stockoutDemo ''supplier'' = Inr 3 \<and>
   lagged_attribution ''supplier'' (entities stockoutDemo) aiRoleOrder = 2"
proof
  show "GameEngine_calculateResponsibilityScore stockoutDemo ''supplier'' = Inr 3"
    by (simp add: GameEngine_calculateResponsibilityScore_def responsibilityRoleOrder_def
        stockoutDemo_def GameEngine_def fiveRoles_def aiRoleOrder_def new_entity_def)
  show "lagged_attribution ''supplier'' (entities stockoutDemo) aiRoleOrder = 2"
    by (simp add: lagged_attribution_def rounds_recorded_def stockout_at_def stockoutDemo_def
        GameEngine_def fiveRoles_def aiRoleOrder_def new_entity_def Let_def upt_conv_Cons)
qed


section \<open>ScoreCalculator: ratios with a zero denominator\<close>

lemma bullwhip_step_other:
  "k \<noteq> roleOrder ! index \<Longrightarrow> bullwhip_step ents roleOrder ms index k = ms k"
proof (cases "ents (roleOrder ! index)")
  case None
  assume "k \<noteq> roleOrder ! index"
  with None show ?thesis by (simp add: bullwhip_step_def)
next
  case (Some e)
  assume "k \<noteq> roleOrder ! index"
  with Some show ?thesis by (cases "index > 0") (simp_all add: bullwhip_step_def Let_def)
qed

lemma bullwhip_fold_later:
  assumes "distinct roleOrder" "i < n" "n \<le> length roleOrder"
  shows "fold (\<lambda>index ms. bullwhip_step ents roleOrder ms index) [0..<n] ms0 (roleOrder ! i) =
         bullwhip_step ents roleOrder
           (fold (\<lambda>index ms. bullwhip_step ents roleOrder ms index) [0..<i] ms0) i (roleOrder ! i)"
  using assms(2,3)
proof (induction n)
  case 0
  then show ?case by simp
next
  case (Suc n)
  show ?case
  proof (cases "i = n")
    case True
    then show ?thesis by simp
  next
    case False
    then have "i < n" using Suc.prems by simp
    moreover have "roleOrder ! i \<noteq> roleOrder ! n"
      using assms(1) Suc.prems False by (simp add: nth_eq_iff_index_eq)
    ultimately show ?thesis
      using Suc by (simp add: bullwhip_step_other)
  qed
qed

lemma calculateBullwhipMetrics_at:
  assumes "distinct roleOrder" "i < length roleOrder"
  shows "calculateBullwhipMetrics ents roleOrder (roleOrder ! i) =
         bullwhip_step ents roleOrder
           (fold (\<lambda>index ms. bullwhip_step ents roleOrder ms index) [0..<i] Map.empty) i (roleOrder ! i)"
  unfolding calculateBullwhipMetrics_def
  using bullwhip_fold_later [OF assms(1,2) order_refl] .

lemma bullwhip_step_cv:
  assumes "\<forall>k m mu. ms k = Some m \<and> mean m = Some mu \<and> mu \<le> 0 \<longrightarrow> coefficientOfVariation m = Some 0"
  shows "\<forall>k m mu. bullwhip_step ents roleOrder ms index k = Some m \<and> mean m = Some mu \<and> mu \<le> 0 \<longrightarrow>
           coefficientOfVariation m = Some 0"
proof (intro allI impI)
  fix k m mu
  assume a: "bullwhip_step ents roleOrder ms index k = Some m \<and> mean m = Some mu \<and> mu \<le> 0"
  show "coefficientOfVariation m = Some 0"
  proof (cases "k = roleOrder ! index")
    case False
    then have "ms k = Some m" using a by (simp add: bullwhip_step_other)
    then show ?thesis using a assms by blast
  next
    case True
    with a show ?thesis
      by (auto simp add: bullwhip_step_def Let_def no_history_metrics_def
          split: option.splits if_splits)
  qed
qed

lemma bullwhip_fold_cv:
  assumes "\<forall>k m mu. ms k = Some m \<and> mean m = Some mu \<and> mu \<le> 0 \<longrightarrow> coefficientOfVariation m = Some 0"
  shows "\<forall>k m mu. fold (\<lambda>index ms. bullwhip_step ents roleOrder ms index) xs ms k = Some m \<and>
           mean m = Some mu \<and> mu \<le> 0 \<longrightarrow> coefficientOfVariation m = Some 0"
  using assms
proof (induction xs arbitrary: ms)
  case Nil
  then show ?case by simp
next
  case (Cons x xs)
  show ?case
    using Cons.IH [OF bullwhip_step_cv [OF Cons.prems]] by simp
qed

lemma bullwhip_first:
  assumes "distinct roleOrder" "roleOrder \<noteq> []" "ents (roleOrder ! 0) = Some e" "orderHistory e \<noteq> []"
  shows "\<exists>m. calculateBullwhipMetrics ents roleOrder (roleOrder ! 0) = Some m \<and> bullwhipRatio m = Some 1"
  using assms calculateBullwhipMetrics_at [of roleOrder 0 ents]
  by (simp add: bullwhip_step_def Let_def)

lemma bullwhip_zero_downstream:
  assumes "distinct roleOrder" "0 < i" "i < length roleOrder"
    and "ents (roleOrder ! i) = Some e" "orderHistory e \<noteq> []"
    and "calculateBullwhipMetrics ents roleOrder (roleOrder ! (i - 1)) = Some d" "variance d = 0"
  shows "\<exists>m. calculateBullwhipMetrics ents roleOrder (roleOrder ! i) = Some m \<and>
           bullwhipRatio m = Some (variance m)"
proof -
  define ms where "ms = fold (\<lambda>index ms. bullwhip_step ents roleOrder ms index) [0..<i] Map.empty"
  have ne: "roleOrder ! (i - 1) \<noteq> roleOrder ! i"
    using assms(1,2,3) by (simp add: nth_eq_iff_index_eq)
  have "ms (roleOrder ! (i - 1)) =
        bullwhip_step ents roleOrder
           (fold (\<lambda>index ms. bullwhip_step ents roleOrder ms index) [0..<i - 1] Map.empty) (i - 1)
           (roleOrder ! (i - 1))"
    unfolding ms_def using bullwhip_fold_later [OF assms(1), of "i - 1" i ents Map.empty] assms(2,3)
    by simp
  also have "\<dots> = calculateBullwhipMetrics ents roleOrder (roleOrder ! (i - 1))"
    using calculateBullwhipMetrics_at [OF assms(1), of "i - 1" ents] assms(3) by simp
  finally have d: "ms (roleOrder ! (i - 1)) = Some d" using assms(6) by simp
  have "calculateBullwhipMetrics ents roleOrder (roleOrder ! i) =
          bullwhip_step ents roleOrder ms i (roleOrder ! i)"
    unfolding ms_def using calculateBullwhipMetrics_at [OF assms(1,3)] .
  then show ?thesis
    using assms(2,4,5,7) d ne
    by (simp add: bullwhip_step_def Let_def or_one_def)
qed

text \<open>
  Claim C7 (as stated, refuted). Where the downstream variance is \<open>0\<close> the code divides by
  \<open>1\<close> instead: the retailer of \<open>varianceDemo\<close> has variance \<open>0\<close>, the distributor has
  variance \<open>4\<close>, and the distributor's \<open>bullwhipRatio\<close> is \<open>4\<close>, not \<open>1\<close>.
\<close>

theorem bullwhipRatio_zero_downstream_not_one:
  "\<exists>d m. calculateBullwhipMetrics varianceDemo [''retailer'', ''distributor''] ''retailer'' = Some d \<and>
     variance d = 0 \<and>
     calculateBullwhipMetrics varianceDemo [''retailer'', ''distributor''] ''distributor'' = Some m \<and>
     variance m = 4 \<and> bullwhipRatio m = Some 4"
  by (simp add: calculateBullwhipMetrics_def bullwhip_step_def varianceDemo_def new_entity_def
      or_one_def Let_def upt_conv_Cons power2_eq_square)

text \<open>
  Claim C7 (amended). With a zero denominator: the service level and the fill rate are
  \<open>100\<close>, the inventory turnover is \<open>0\<close>, the coefficient of variation is \<open>0\<close> (for every
  mean that is not positive). The \<open>bullwhipRatio\<close> of the first role of the chain array,
  when it has an order history, is \<open>1\<close>; that of a later role whose immediate downstream
  role has variance \<open>0\<close> is the role's own variance, the denominator being replaced by \<open>1\<close>.
\<close>

theorem ratio_defaults:
  "calculateServiceLevel a 0 = 100 \<and> calculateFillRate a 0 = 100 \<and>
   calculateInventoryTurnover 0 b c = 0 \<and>
   (calculateBullwhipMetrics ents roleOrder k = Some m \<and> mean m = Some mu \<and> mu \<le> 0 \<longrightarrow>
      coefficientOfVariation m = Some 0) \<and>
   (distinct roleOrder \<and> roleOrder \<noteq> [] \<and> ents (roleOrder ! 0) = Some e \<and> orderHistory e \<noteq> [] \<longrightarrow>
      (\<exists>m. calculateBullwhipMetrics ents roleOrder (roleOrder ! 0) = Some m \<and>
            bullwhipRatio m = Some 1)) \<and>
   (distinct roleOrder \<and> 0 < i \<and> i < length roleOrder \<and>
    ents (roleOrder ! i) = Some e' \<and> orderHistory e' \<noteq> [] \<and>
    calculateBullwhipMetrics ents roleOrder (roleOrder ! (i - 1)) = Some d \<and> variance d = 0 \<longrightarrow>
      (\<exists>m. calculateBullwhipMetrics ents roleOrder (roleOrder ! i) = Some m \<and>
            bullwhipRatio m = Some (variance m)))"
proof (intro conjI impI)
  show "calculateServiceLevel a 0 = 100" by (simp add: calculateServiceLevel_def)
  show "calculateFillRate a 0 = 100" by (simp add: calculateFillRate_def)
  show "calculateInventoryTurnover 0 b c = 0" by (simp add: calculateInventoryTurnover_def)
next
  assume "calculateBullwhipMetrics ents roleOrder k = Some m \<and> mean m = Some mu \<and> mu \<le> 0"
  moreover have "\<forall>k m mu. fold (\<lambda>index ms. bullwhip_step ents roleOrder ms index)
           [0..<length roleOrder] Map.empty k = Some m \<and> mean m = Some mu \<and> mu \<le> 0 \<longrightarrow>
           coefficientOfVariation m = Some 0"
    by (rule bullwhip_fold_cv) simp
  ultimately show "coefficientOfVariation m = Some 0"
    unfolding calculateBullwhipMetrics_def by blast
next
  assume "distinct roleOrder \<and> roleOrder \<noteq> [] \<and> ents (roleOrder ! 0) = Some e \<and> orderHistory e \<noteq> []"
  then show "\<exists>m. calculateBullwhipMetrics ents roleOrder (roleOrder ! 0) = Some m \<and>
            bullwhipRatio m = Some 1"
    using bullwhip_first by blast
next
  assume "distinct roleOrder \<and> 0 < i \<and> i < length roleOrder \<and>
    ents (roleOrder ! i) = Some e' \<and> orderHistory e' \<noteq> [] \<and>
    calculateBullwhipMetrics ents roleOrder (roleOrder ! (i - 1)) = Some d \<and> variance d = 0"
  then show "\<exists>m. calculateBullwhipMetrics ents roleOrder (roleOrder ! i) = Some m \<and>
            bullwhipRatio m = Some (variance m)"
    using bullwhip_zero_downstream by blast
qed


theorem ratio_defaults_witness:
  "calculateServiceLevel 7 0 = 100 \<and> calculateFillRate 7 0 = 100 \<and>
   calculateInventoryTurnover 0 50 20 = 0 \<and>
   (\<exists>m. calculateBullwhipMetrics varianceDemo [''retailer'', ''distributor'', ''wholesaler'']
          ''wholesaler'' = Some m \<and> mean m = Some 0 \<and> coefficientOfVariation m = Some 0) \<and>
   (\<exists>m. calculateBullwhipMetrics varianceDemo [''retailer'', ''distributor'', ''wholesaler'']
          ''retailer'' = Some m \<and> bullwhipRatio m = Some 1) \<and>
   (\<exists>m. calculateBullwhipMetrics varianceDemo [''retailer'', ''distributor'', ''wholesaler'']
          ''distributor'' = Some m \<and> variance m = 4 \<and> bullwhipRatio m = Some (variance m))"
proof -
  let ?R = "[''retailer'', ''distributor'', ''wholesaler'']"
  have "\<exists>m. calculateBullwhipMetrics varianceDemo ?R ''wholesaler'' = Some m \<and> mean m = Some 0"
    by (simp add: calculateBullwhipMetrics_def bullwhip_step_def varianceDemo_def new_entity_def
        or_one_def Let_def upt_conv_Cons)
  then obtain mw where w: "calculateBullwhipMetrics varianceDemo ?R ''wholesaler'' = Some mw"
    "mean mw = Some 0" by blast
  have "\<exists>d. calculateBullwhipMetrics varianceDemo ?R ''retailer'' = Some d \<and> variance d = 0"
    by (simp add: calculateBullwhipMetrics_def bullwhip_step_def varianceDemo_def new_entity_def
        or_one_def Let_def upt_conv_Cons)
  then obtain d where d: "calculateBullwhipMetrics varianceDemo ?R (?R ! (1 - 1)) = Some d"
    "variance d = 0" by auto
  have "\<exists>m. calculateBullwhipMetrics varianceDemo ?R ''distributor'' = Some m \<and> variance m = 4"
    by (simp add: calculateBullwhipMetrics_def bullwhip_step_def varianceDemo_def new_entity_def
        or_one_def Let_def upt_conv_Cons power2_eq_square)
  then obtain md where md: "calculateBullwhipMetrics varianceDemo ?R ''distributor'' = Some md"
    "variance md = 4" by blast
  have e: "varianceDemo (?R ! 0) = Some ((new_entity \<lparr>role_id = ''retailer'', role_name = ''retailer''\<rparr>)
             \<lparr>orderHistory := [5, 5]\<rparr>)"
    "varianceDemo (?R ! 1) = Some ((new_entity \<lparr>role_id = ''distributor'', role_name = ''distributor''\<rparr>)
             \<lparr>orderHistory := [0, 4]\<rparr>)"
    by (simp_all add: varianceDemo_def)
  note inst = ratio_defaults
    [where a = 7 and b = 50 and c = 20 and ents = varianceDemo and roleOrder = ?R
       and k = "''wholesaler''" and m = mw and mu = 0 and i = 1 and d = d
       and e = "(new_entity \<lparr>role_id = ''retailer'', role_name = ''retailer''\<rparr>)\<lparr>orderHistory := [5, 5]\<rparr>"
       and e' = "(new_entity \<lparr>role_id = ''distributor'', role_name = ''distributor''\<rparr>)\<lparr>orderHistory := [0, 4]\<rparr>"]
  have "coefficientOfVariation mw = Some 0" using inst w by simp
  moreover have "\<exists>m. calculateBullwhipMetrics varianceDemo ?R ''retailer'' = Some m \<and>
      bullwhipRatio m = Some 1"
    using inst e(1) by simp
  moreover have "\<exists>m. calculateBullwhipMetrics varianceDemo ?R ''distributor'' = Some m \<and>
      bullwhipRatio m = Some (variance m)"
    using inst e(2) d by simp
  ultimately show ?thesis
    using w md inst by auto
qed

section \<open>The random numbers that a session reads\<close>

lemma error_is_TypeError: "(e :: error) = TypeError"
  by (cases e) simp

lemma reads_Inl [simp]: "reads k (\<lambda>r. Inl e)"
  by (simp add: reads_def)

lemma reads_return [simp]: "reads 0 (\<lambda>r. Inr (x, r))"
  by (simp add: reads_def)

lemma stake_add_eq:
  assumes "stake (k + m) r1 = stake (k + m) r2"
  shows "stake k r1 = stake k r2" and "stake m (sdrop k r1) = stake m (sdrop k r2)"
proof -
  have "stake k r1 @ stake m (sdrop k r1) = stake k r2 @ stake m (sdrop k r2)"
    using assms by simp
  then have "stake k r1 = stake k r2 \<and> stake m (sdrop k r1) = stake m (sdrop k r2)"
    by (simp del: stake_add)
  then show "stake k r1 = stake k r2" and "stake m (sdrop k r1) = stake m (sdrop k r2)"
    by simp_all
qed

lemma readsD1:
  "reads k f \<Longrightarrow> stake k r1 = stake k r2 \<Longrightarrow> map_sum id fst (f r1) = map_sum id fst (f r2)"
  unfolding reads_def by blast

lemma readsD2: "reads k f \<Longrightarrow> f r = Inr (x, s) \<Longrightarrow> s = sdrop k r"
  unfolding reads_def by blast

lemma reads_bind:
  assumes f: "reads k f" and h: "\<And>x. reads m (h x)"
  shows "reads (k + m) (\<lambda>r. case f r of Inl e \<Rightarrow> Inl e | Inr (x, s) \<Rightarrow> h x s)"
  unfolding reads_def
proof (intro conjI allI impI)
  fix r1 r2 :: random_source
  assume eq: "stake (k + m) r1 = stake (k + m) r2"
  note eqs = stake_add_eq [OF eq]
  have res: "map_sum id fst (f r1) = map_sum id fst (f r2)"
    using f eqs(1) by (rule readsD1)
  show "map_sum id fst (case f r1 of Inl e \<Rightarrow> Inl e | Inr (x, s) \<Rightarrow> h x s) =
        map_sum id fst (case f r2 of Inl e \<Rightarrow> Inl e | Inr (x, s) \<Rightarrow> h x s)"
  proof (cases "f r1")
    case (Inl a)
    with res show ?thesis by (cases "f r2") simp_all
  next
    case (Inr b)
    obtain x s1 where b: "b = (x, s1)" by (cases b)
    from res Inr b obtain s2 where 2: "f r2 = Inr (x, s2)"
      by (cases "f r2") auto
    have s1: "s1 = sdrop k r1" using readsD2 [OF f] Inr b by simp
    have s2: "s2 = sdrop k r2" using readsD2 [OF f 2] .
    have "map_sum id fst (h x s1) = map_sum id fst (h x s2)"
      unfolding s1 s2 using h eqs(2) by (rule readsD1)
    with Inr b 2 show ?thesis by simp
  qed
next
  fix r y s
  assume a: "(case f r of Inl e \<Rightarrow> Inl e | Inr (x, s) \<Rightarrow> h x s) = Inr (y, s)"
  then obtain x s1 where 1: "f r = Inr (x, s1)" and 2: "h x s1 = Inr (y, s)"
    by (cases "f r") auto
  have "s1 = sdrop k r" using readsD2 [OF f 1] .
  moreover have "s = sdrop m s1" using readsD2 [OF h 2] .
  ultimately show "s = sdrop (k + m) r" by simp
qed

lemma calculateAIOrder_shd:
  assumes "shd r1 = shd r2"
  shows "fst (calculateAIOrder e strategy ord rnd r1) = fst (calculateAIOrder e strategy ord rnd r2)"
  unfolding calculateAIOrder_def Let_def fst_conv assms ..

lemma aiProcess_shd:
  assumes "shd r1 = shd r2"
  shows "fst (aiProcess e incoming strategy rnd r1) = fst (aiProcess e incoming strategy rnd r2)"
    and "fst (snd (aiProcess e incoming strategy rnd r1)) = fst (snd (aiProcess e incoming strategy rnd r2))"
  using calculateAIOrder_shd [OF assms] by (simp_all add: aiProcess_def Let_def)

lemma readsI_1:
  assumes "\<And>r1 r2. shd r1 = shd r2 \<Longrightarrow> A r1 = A r2"
  shows "reads 1 (\<lambda>r. Inr (A r, stl r))"
  unfolding reads_def
proof (intro conjI allI impI)
  fix r1 r2 :: random_source
  assume "stake 1 r1 = stake 1 r2"
  then have "shd r1 = shd r2" by simp
  then have "A r1 = A r2" by (rule assms)
  then show "map_sum id fst (Inr (A r1, stl r1)) = map_sum id fst (Inr (A r2, stl r2))"
    by simp
next
  fix r x s
  assume "Inr (A r, stl r) = Inr (x, s)"
  then show "s = sdrop 1 r" by simp
qed

lemma readsI_3:
  assumes "\<And>r1 r2. shd r1 = shd r2 \<Longrightarrow> shd (stl r1) = shd (stl r2) \<Longrightarrow>
             shd (stl (stl r1)) = shd (stl (stl r2)) \<Longrightarrow> A r1 = A r2"
  shows "reads 3 (\<lambda>r. Inr (A r, stl (stl (stl r))))"
  unfolding reads_def
proof (intro conjI allI impI)
  fix r1 r2 :: random_source
  assume "stake 3 r1 = stake 3 r2"
  then have "shd r1 = shd r2" "shd (stl r1) = shd (stl r2)" "shd (stl (stl r1)) = shd (stl (stl r2))"
    by (simp_all add: eval_nat_numeral)
  then have "A r1 = A r2" by (rule assms)
  then show "map_sum id fst (Inr (A r1, stl (stl (stl r1)))) = map_sum id fst (Inr (A r2, stl (stl (stl r2))))"
    by simp
next
  fix r x s
  assume "Inr (A r, stl (stl (stl r))) = Inr (x, s)"
  then show "s = sdrop 3 r" by (simp add: eval_nat_numeral)
qed

lemma aiIteration_reads:
  assumes "roleId \<in> set aiRoleOrder"
  shows "reads (aiDraws rnd p roleId) (\<lambda>r. aiIteration rnd p roleId (g, r))"
proof (cases "roleId = p")
  case True
  then show ?thesis by (simp add: aiIteration_alt aiDraws_def)
next
  case np: False
  show ?thesis
  proof (cases "roleId = ''retailer''")
    case nr: False
    have ne: "downstreamOf roleId \<noteq> roleId" using downstreamOf_in [OF assms nr] by simp
    have k: "aiDraws rnd p roleId = 1" using np nr by (simp add: aiDraws_def)
    show ?thesis
    proof (cases "entities g (downstreamOf roleId)")
      case None
      with np nr show ?thesis by (simp add: aiIteration_alt)
    next
      case de: (Some de)
      show ?thesis
      proof (cases "entities g roleId")
        case None
        with np nr ne de show ?thesis by (simp add: aiIteration_alt Let_def)
      next
        case (Some e)
        define A where "A = (\<lambda>r. g\<lparr>entities := (entities g)
              (roleId \<mapsto> fst (aiProcess e (fst (shift_or_0 (outgoingOrders de)))
                                 (getAIStrategy roleId rnd) rnd r),
               downstreamOf roleId \<mapsto>
                 de\<lparr>outgoingOrders := snd (shift_or_0 (outgoingOrders de)),
                    incomingShipments := incomingShipments de @
                      [fst (snd (aiProcess e (fst (shift_or_0 (outgoingOrders de)))
                                   (getAIStrategy roleId rnd) rnd r))]\<rparr>)\<rparr>)"
        have "(\<lambda>r. aiIteration rnd p roleId (g, r)) = (\<lambda>r. Inr (A r, stl r))"
          using np nr ne de Some
          by (intro ext) (simp add: aiIteration_alt Let_def A_def fun_upd_twist)
        moreover have "reads 1 (\<lambda>r. Inr (A r, stl r))"
        proof (rule readsI_1)
          fix r1 r2 :: random_source
          assume "shd r1 = shd r2"
          then show "A r1 = A r2"
            unfolding A_def using aiProcess_shd [of r1 r2] by simp
        qed
        ultimately show ?thesis by (simp add: k)
      qed
    qed
  next
    case True
    show ?thesis
    proof (cases "entities g roleId")
      case None
      have "\<And>r. aiIteration rnd p roleId (g, r) = Inl TypeError"
        using np True None
        by (auto simp add: aiIteration_alt split: sum.splits intro: error_is_TypeError)
      then show ?thesis by simp
    next
      case (Some e)
      show ?thesis
      proof (cases "rnd < 1 \<or> rnd > 20")
        case out: True
        then have d: "\<And>r. getCustomerDemand g rnd r = Inr (0, r)"
          by (auto simp add: getCustomerDemand_def)
        have k: "aiDraws rnd p roleId = 1" using np True out by (simp add: aiDraws_def)
        define A where "A = (\<lambda>r. g\<lparr>entities := (entities g)(roleId \<mapsto>
                            fst (aiProcess e 0 (getAIStrategy roleId rnd) rnd r))\<rparr>)"
        have "(\<lambda>r. aiIteration rnd p roleId (g, r)) = (\<lambda>r. Inr (A r, stl r))"
          using np True Some by (intro ext) (simp add: aiIteration_alt d A_def)
        moreover have "reads 1 (\<lambda>r. Inr (A r, stl r))"
        proof (rule readsI_1)
          fix r1 r2 :: random_source
          assume "shd r1 = shd r2"
          then show "A r1 = A r2"
            unfolding A_def using aiProcess_shd [of r1 r2] by simp
        qed
        ultimately show ?thesis by (simp add: k)
      next
        case inr: False
        have k: "aiDraws rnd p roleId = 3" using np True inr by (simp add: aiDraws_def)
        show ?thesis
        proof (cases "nat (rnd - 1) < length (demandTrend g)")
          case False
          with inr have d: "\<And>r. getCustomerDemand g rnd r = Inl TypeError"
            by (auto simp add: getCustomerDemand_def)
          show ?thesis
            using np True by (simp add: aiIteration_alt d)
        next
          case valid: True
          define dem where "dem = (\<lambda>r :: random_source.
             let ph = demandTrend g ! nat (rnd - 1);
                 base = \<lfloor>shd r * real_of_int (max' ph - min' ph + 1)\<rfloor> + min' ph;
                 noise = (shd (stl r) - 0.5) * 2 * volatility ph * real_of_int base
             in max 0 (round (real_of_int base + noise)))"
          have d: "\<And>r. getCustomerDemand g rnd r = Inr (dem r, stl (stl r))"
            using inr valid by (auto simp add: getCustomerDemand_def dem_def Let_def)
          define A where "A = (\<lambda>r. g\<lparr>entities := (entities g)(roleId \<mapsto>
                            fst (aiProcess e (dem r) (getAIStrategy roleId rnd) rnd (stl (stl r))))\<rparr>)"
          have "(\<lambda>r. aiIteration rnd p roleId (g, r)) = (\<lambda>r. Inr (A r, stl (stl (stl r))))"
            using np True Some by (intro ext) (simp add: aiIteration_alt d A_def)
          moreover have "reads 3 (\<lambda>r. Inr (A r, stl (stl (stl r))))"
          proof (rule readsI_3)
            fix r1 r2 :: random_source
            assume a: "shd r1 = shd r2" "shd (stl r1) = shd (stl r2)"
              "shd (stl (stl r1)) = shd (stl (stl r2))"
            have "dem r1 = dem r2" using a(1,2) by (simp add: dem_def)
            then show "A r1 = A r2"
              unfolding A_def using aiProcess_shd [of "stl (stl r1)" "stl (stl r2)"] a(3) by simp
          qed
          ultimately show ?thesis by (simp add: k)
        qed
      qed
    qed
  qed
qed


lemma forEachRole_reads:
  assumes "set rs \<subseteq> set aiRoleOrder"
  shows "reads (sum_list (map (aiDraws rnd p) rs)) (\<lambda>r. forEachRole rnd p rs (g, r))"
  using assms
proof (induction rs arbitrary: g)
  case Nil
  then show ?case by simp
next
  case (Cons a rs)
  have 1: "reads (aiDraws rnd p a) (\<lambda>r. aiIteration rnd p a (g, r))"
    using Cons.prems by (intro aiIteration_reads) simp
  have 2: "\<And>g'. reads (sum_list (map (aiDraws rnd p) rs)) (\<lambda>r. forEachRole rnd p rs (g', r))"
    using Cons.IH Cons.prems by simp
  have "(\<lambda>r. forEachRole rnd p (a # rs) (g, r)) =
        (\<lambda>r. case aiIteration rnd p a (g, r) of Inl e \<Rightarrow> Inl e
                | Inr (g', s) \<Rightarrow> forEachRole rnd p rs (g', s))"
    by (intro ext) (simp split: sum.splits)
  then show ?case
    using reads_bind [OF 1 2] by simp
qed

lemma processAIEntities_reads:
  "reads (roundDraws p rnd) (\<lambda>r. processAIEntities rnd p (g, r))"
proof -
  define h where "h = (\<lambda>(g' :: engine) (s :: random_source).
     (case entities g' ''supplier'' of
        None \<Rightarrow> Inl TypeError
      | Some supplierEntity \<Rightarrow>
          (case entities g' ''manufacturer'' of
             None \<Rightarrow> Inl TypeError
           | Some manufacturerEntity \<Rightarrow>
               Inr (g'\<lparr>entities := (entities g')(''manufacturer'' \<mapsto>
                        manufacturerEntity\<lparr>incomingShipments :=
                          incomingShipments manufacturerEntity @
                            [if incomingOrders supplierEntity = [] then 0
                             else incomingOrders supplierEntity !
                                    (length (incomingOrders supplierEntity) - 1)]\<rparr>)\<rparr>, s))))"
  have h: "reads 0 (h g')" for g'
    by (cases "entities g' ''supplier''"; cases "entities g' ''manufacturer''")
       (simp_all add: h_def)
  have 1: "reads (roundDraws p rnd) (\<lambda>r. forEachRole rnd p aiRoleOrder (g, r))"
    unfolding roundDraws_def by (rule forEachRole_reads) simp
  have "(\<lambda>r. processAIEntities rnd p (g, r)) =
        (\<lambda>r. case forEachRole rnd p aiRoleOrder (g, r) of Inl e \<Rightarrow> Inl e | Inr (g', s) \<Rightarrow> h g' s)"
    by (intro ext) (auto simp add: processAIEntities_def h_def Let_def split: sum.splits option.splits)
  then show ?thesis
    using reads_bind [OF 1 h] by simp
qed

lemma processPlayerOrder_reads:
  "reads (roundDraws roleId rnd)
     (\<lambda>r. case processPlayerOrder roleId quantity rnd (g, r) of
             Inl e \<Rightarrow> Inl e | Inr (res, g', s) \<Rightarrow> Inr ((res, g'), s))"
proof (cases "entities g roleId")
  case None
  then show ?thesis by (simp add: processPlayerOrder_alt)
next
  case (Some e)
  define g1 where "g1 = g\<lparr>entities := (entities g)(roleId \<mapsto> playerProcess e quantity)\<rparr>"
  define h where "h = (\<lambda>(g2 :: engine) (s :: random_source).
     (case entities g2 roleId of
        None \<Rightarrow> Inl TypeError
      | Some e2 \<Rightarrow>
          Inr ((\<lparr>newInventory = inventory e2,
                 stockoutCost = real_of_int (fst (shift_or_0 (incomingOrders e)) -
                    min (fst (shift_or_0 (incomingOrders e))) (inventory e)) * 1.0,
                 holdingCost = real_of_int (inventory (playerProcess e quantity)) * 0.5,
                 fulfilled = min (fst (shift_or_0 (incomingOrders e))) (inventory e),
                 unfulfilled = fst (shift_or_0 (incomingOrders e)) -
                    min (fst (shift_or_0 (incomingOrders e))) (inventory e)\<rparr>, g2), s)))"
  have h: "reads 0 (h g2)" for g2
    by (cases "entities g2 roleId") (simp_all add: h_def)
  have "(\<lambda>r. case processPlayerOrder roleId quantity rnd (g, r) of
             Inl e \<Rightarrow> Inl e | Inr (res, g', s) \<Rightarrow> Inr ((res, g'), s)) =
        (\<lambda>r. case processAIEntities rnd roleId (g1, r) of Inl e \<Rightarrow> Inl e | Inr (g2, s) \<Rightarrow> h g2 s)"
    using Some
    by (intro ext)
       (auto simp add: processPlayerOrder_alt g1_def h_def Let_def split: sum.splits option.splits)
  then show ?thesis
    using reads_bind [OF processAIEntities_reads [of roleId rnd g1] h] by simp
qed

lemma play_reads: "reads (sessionDraws calls) (\<lambda>r. play calls (g, r))"
proof (induction calls arbitrary: g)
  case Nil
  then show ?case by simp
next
  case (Cons c calls)
  obtain roleId quantity rnd where c: "c = (roleId, quantity, rnd)" by (cases c)
  have "(\<lambda>r. play (c # calls) (g, r)) =
        (\<lambda>r. case (case processPlayerOrder roleId quantity rnd (g, r) of
                      Inl e \<Rightarrow> Inl e | Inr (res, g', s) \<Rightarrow> Inr ((res, g'), s)) of
                Inl e \<Rightarrow> Inl e
              | Inr (x, s) \<Rightarrow> play calls (snd x, s))"
    by (intro ext) (simp add: c split: sum.splits)
  then show ?case
    using reads_bind [OF processPlayerOrder_reads [of roleId rnd quantity g],
        of "sessionDraws calls" "\<lambda>x r. play calls (snd x, r)"] Cons.IH
    by (simp add: c)
qed

lemma roundDraws_le: "roundDraws p rnd \<le> 7"
  by (simp add: roundDraws_def aiDraws_def aiRoleOrder_def)

lemma sessionDraws_le: "sessionDraws calls \<le> 7 * length calls"
proof (induction calls)
  case Nil
  then show ?case by simp
next
  case (Cons c calls)
  obtain roleId quantity rnd where c: "c = (roleId, quantity, rnd)" by (cases c)
  show ?case using Cons.IH roundDraws_le [of roleId rnd] by (simp add: c)
qed

text \<open>
  Claim C9 (as stated, refuted). The program draws from \<open>Math.random()\<close>, which takes no
  seed: the same engine and the same call, run once with every draw \<open>1/2\<close> and once with
  every draw \<open>0\<close>, give the retailer the order history \<open>[5]\<close> and \<open>[4]\<close>.
\<close>

theorem same_inputs_different_histories:
  "(\<exists>g rand. play [(''supplier'', 5, 1)] (GameEngine fiveRoles ''p'', halves) = Inr (g, rand) \<and>
      map_option orderHistory (entities g ''retailer'') = Some [5]) \<and>
   (\<exists>g rand. play [(''supplier'', 5, 1)] (GameEngine fiveRoles ''p'', zeros) = Inr (g, rand) \<and>
      map_option orderHistory (entities g ''retailer'') = Some [4])"
  by (simp add: round_eval cong: weak_congs)

text \<open>
  Claim C9 (amended). A session is a function of the engine it starts from, of the
  calls, and of the values that \<open>Math.random()\<close> returns: it reads at most \<open>7\<close> of them per
  call, and two runs of the same calls from the same engine whose sources agree on the
  numbers read end in the same engine state or in the same error.
\<close>

theorem session_determined_by_draws:
  "sessionDraws calls \<le> 7 * length calls \<and>
   (stake (sessionDraws calls) rand1 = stake (sessionDraws calls) rand2 \<longrightarrow>
      map_sum id fst (play calls (g, rand1)) = map_sum id fst (play calls (g, rand2)))"
  using sessionDraws_le [of calls] readsD1 [OF play_reads, of calls rand1 rand2 g] by simp

theorem session_determined_by_draws_witness:
  "sessionDraws [(''supplier'', 5, 1)] = 6 \<and>
   map_sum id fst (play [(''supplier'', 5, 1)] (GameEngine fiveRoles ''p'', halves)) =
   map_sum id fst (play [(''supplier'', 5, 1)]
                     (GameEngine fiveRoles ''p'', replicate 6 (1 / 2) @- zeros))"
proof -
  have 1: "sessionDraws [(''supplier'', 5, 1)] = 6"
    by (simp add: roundDraws_def aiDraws_def aiRoleOrder_def)
  have 2: "stake 6 halves = stake 6 (replicate 6 (1 / 2) @- zeros)"
    by (simp add: halves_def eval_nat_numeral)
  show ?thesis
    using session_determined_by_draws [of "[(''supplier'', 5, 1)]" halves
        "replicate 6 (1 / 2) @- zeros" "GameEngine fiveRoles ''p''"] 1 2
    by simp
qed

end
